theory Spec2Isabelle
  imports Main "HOL-Library.Word"
begin

section \<open>Outbound message dispatch of the Signal client (package signalmeow)\<close>

text \<open>
  A shallow embedding of the sending half of the Signal protocol client: payload
  padding, envelope construction, transport dispatch, the recursive retry of
  \<open>sendContent\<close> and the 1:1 and group entry points.  Byte strings are lists of
  8-bit words, Go's \<open>int\<close> lengths and indices are natural numbers (a slice length
  is never negative and \<open>len + 1\<close> cannot overflow for a slice that fits in memory),
  \<open>uint32\<close> and \<open>uint64\<close> values are words.
\<close>

subsection \<open>Errors\<close>

type_synonym bytes = "8 word list"

text \<open>
  Where an error of a capability that is not part of this file comes from.  The tag is
  attached by the caller at the call site; the capability itself only supplies the
  message.
\<close>

datatype origin =
    FromProfileKey
  | FromDeriveAccessKey
  | FromSessionStore
  | FromAddress
  | FromMarshal
  | FromSessionRecord
  | FromCipher
  | FromCertificate
  | FromTransport
  | FromJson
  | FromGroupStore

text \<open>
  Go \<open>error\<close> values.  The first constructors are the errors the source creates
  itself (\<open>fmt.Errorf\<close>, \<open>errors.New\<close>); \<open>External\<close> is an error handed back by a
  capability.  \<open>RuntimePanic\<close> is not an error value: it stands for a Go run-time panic
  (failed type assertion, index out of range, nil dereference).  Nothing in the source
  recovers from a panic, so every caller passes it on unchanged.
\<close>

datatype err =
    TooManyRetries
  | UnknownVersion "32 word"
  | PositionExceedsBlock
  | InvalidPadding err
  | NilSessions
  | MismatchedSessions nat nat
  | NoSessions
  | UnknownMessageType nat
  | UnexpectedStatus "32 word"
  | HTTPError int
  | External origin string
  | RuntimePanic string

fun is_panic :: "err option \<Rightarrow> bool" where
  "is_panic (Some (RuntimePanic m)) = True"
| "is_panic e = False"

subsection \<open>Padding codec: \<open>padBlock\<close> and \<open>addPadding\<close>\<close>

text \<open>
  The loop \<open>for i := pos + 1; i < len(*block); i++ { (*block)[i] = 0 }\<close> of
  \<open>padBlock\<close>.
\<close>

function zeroFrom :: "bytes \<Rightarrow> nat \<Rightarrow> bytes" where
  "zeroFrom block i = (if i < length block then zeroFrom (block[i := 0]) (Suc i) else block)"
  by pat_completeness auto
termination
  by (relation "measure (\<lambda>(block, i). length block - i)") auto

declare zeroFrom.simps [simp del]

definition padBlock :: "bytes \<Rightarrow> nat \<Rightarrow> err + bytes" where
  "padBlock block pos =
     (if pos \<ge> length block then Inl PositionExceedsBlock
      else Inr (zeroFrom (block[pos := 0x80]) (pos + 1)))"

text \<open>
  \<open>copy(buffer[:messageLength], contents)\<close>: slicing beyond the capacity of the
  buffer panics; otherwise the first \<open>min (messageLength, len contents)\<close> bytes are
  overwritten.
\<close>

definition copyPrefix :: "bytes \<Rightarrow> nat \<Rightarrow> bytes \<Rightarrow> err + bytes" where
  "copyPrefix buffer n contents =
     (if n > length buffer then Inl (RuntimePanic ''slice bounds out of range'')
      else Inr (take (min n (length contents)) contents @ drop (min n (length contents)) buffer))"

definition messageLengthWithPadding :: "nat \<Rightarrow> nat" where
  "messageLengthWithPadding messageLength =
     (let messageLengthWithTerminator = messageLength + 1;
          messagePartCount = messageLengthWithTerminator div 160;
          messagePartCount = (if messageLengthWithTerminator mod 160 \<noteq> 0
                              then messagePartCount + 1 else messagePartCount)
      in messagePartCount * 160)"

definition addPadding :: "32 word \<Rightarrow> bytes \<Rightarrow> err + bytes" where
  "addPadding version contents =
     (if version < 2 then Inl (UnknownVersion version)
      else if version = 2 then Inr contents
      else
        let messageLength = length contents;
            buffer = replicate (messageLengthWithPadding messageLength) (0 :: 8 word)
        in case copyPrefix buffer messageLength contents of
             Inl p \<Rightarrow> Inl p
           | Inr buffer \<Rightarrow>
               (case padBlock buffer messageLength of
                  Inl e \<Rightarrow> Inl (InvalidPadding e)
                | Inr buffer \<Rightarrow> Inr buffer))"

subsection \<open>Data\<close>

type_synonym u32 = "32 word"
type_synonym u64 = "64 word"

text \<open>
  JSON values, as \<open>encoding/json\<close> decodes them into \<open>interface{}\<close> and as it
  encodes a struct.  A decoded object is the Go map, kept as an association list.  Go
  decodes a number to \<open>float64\<close>; a number is kept here by its integer value, of any
  size (the only numbers the functions below read are device identifiers), and a
  fractional number is not represented.  The conversions \<open>int(...)\<close> and
  \<open>uint(...)\<close> that the source applies are \<open>float64_to_int\<close> and
  \<open>float64_to_uint\<close> below.
\<close>

datatype json =
    JNull
  | JBool bool
  | JNumber int
  | JString string
  | JArray "json list"
  | JObject "(string \<times> json) list"

text \<open>
  Handles of \<open>libsignalgo\<close>.  The library is not part of the modelled sources, so a
  handle is represented by what its accessor methods return: \<open>Address.DeviceID()\<close>,
  \<open>SessionRecord.GetRemoteRegistrationID()\<close>, \<open>CiphertextMessage.Serialize()\<close> and
  \<open>CiphertextMessage.MessageType()\<close>.  An accessor that fails returns the message of
  its error.
\<close>

record address =
  addr_Name :: string
  addr_DeviceID :: "string + nat"

record sessionRecord =
  rec_RemoteRegistrationID :: "string + nat"

record ciphertextMessage =
  cm_Serialize :: "string + bytes"
  cm_MessageType :: nat

type_synonym profileKey = bytes
type_synonym accessKey = bytes
type_synonym certificate = bytes

text \<open>The message types of \<open>libsignalgo\<close> and the envelope types of the wire protocol,
  with the values the source's comments give (\<open>3 -> 3\<close>, \<open>2 -> 1\<close>).\<close>

definition CiphertextMessageTypeWhisper :: nat where
  "CiphertextMessageTypeWhisper = 2"

definition CiphertextMessageTypePreKey :: nat where
  "CiphertextMessageTypePreKey = 3"

definition Envelope_CIPHERTEXT :: int where
  "Envelope_CIPHERTEXT = 1"

definition Envelope_PREKEY_BUNDLE :: int where
  "Envelope_PREKEY_BUNDLE = 3"

text \<open>The protobuf messages the sender assembles (\<open>signalpb.Content\<close>).\<close>

record dataMessage =
  dm_Body :: string
  dm_Timestamp :: u64
  dm_GroupV2 :: "string option"

record unidentifiedDeliveryStatus =
  uds_DestinationUuid :: string
  uds_Unidentified :: bool

record syncMessage_Sent =
  sent_Message :: dataMessage
  sent_DestinationUuid :: "string option"
  sent_Timestamp :: u64
  sent_UnidentifiedStatus :: "unidentifiedDeliveryStatus list"

record content =
  c_DataMessage :: "dataMessage option"
  c_SyncMessage :: "syncMessage_Sent option"

record MyMessage =
  msg_Type :: int
  msg_DestinationDeviceID :: int
  msg_DestinationRegistrationID :: int
  msg_Content :: string

record MyMessages =
  msgs_Timestamp :: int
  msgs_Online :: bool
  msgs_Urgent :: bool
  msgs_Messages :: "MyMessage list"

record SuccessfulSendResult =
  ok_RecipientUuid :: string
  ok_Unidentified :: bool

record FailedSendResult =
  ko_RecipientUuid :: string
  ko_Error :: err

record SendMessageResult =
  res_WasSuccessful :: bool
  res_SuccessfulSendResult :: "SuccessfulSendResult option"
  res_FailedSendResult :: "FailedSendResult option"

record GroupMessageSendResult =
  grp_SuccessfullySentTo :: "SuccessfulSendResult list"
  grp_FailedToSendTo :: "FailedSendResult list"

record groupInfo =
  group_Members :: "string list"

text \<open>Requests and responses of the two websockets, and the HTTP response to the request
  for the sender certificate (its body already decoded: the \<open>certificate\<close> field, or the
  decoder's error).\<close>

datatype connection = AuthedWS | UnauthedWS

record wsRequest =
  req_Verb :: string
  req_Path :: string
  req_Body :: json
  req_Headers :: "string list"

record wsResponse =
  resp_Status :: u32
  resp_Headers :: "string list"
  resp_Body :: "json option"

record httpResponse =
  http_StatusCode :: int
  http_Certificate :: "string + string"

subsection \<open>Capabilities and state\<close>

text \<open>
  The capabilities the sender consumes and that are not part of the modelled sources:
  the profile key store, the session store, the prekey fetch, the cipher, protobuf and
  base64 encoding, the HTTP client, the websockets, the group store and the clock.  Each
  is a parameter; \<open>'w\<close> is the state of everything outside the sender (stores, server,
  network), which a capability may read and change.  A capability that returns a Go
  \<open>error\<close> returns the error's message; a pointer that may be nil is an option
  (\<open>libsignalgo.Encrypt\<close> returns a nil message with its error).  A response that
  never arrives (the source waits for it without a timeout) is not represented:
  \<open>env_SendRequest\<close> returns the transport's error or the response read from the
  channel.  The last field is not a capability but the loop semantics of the toolchain:
  whether a \<open>range\<close> loop has one variable per iteration (language version 1.22 of
  \<open>go.mod\<close> or later) or one for the whole loop; \<open>go.mod\<close> is not among the
  modelled sources.
\<close>

record 'w env =
  env_AciUuid :: string
  env_DeviceId :: nat
  env_UnixMilli :: "'w \<Rightarrow> int"
  env_ProfileKeyForSignalID :: "string \<Rightarrow> 'w \<Rightarrow> (profileKey option \<times> string option) \<times> 'w"
  env_DeriveAccessKey :: "profileKey option \<Rightarrow> accessKey option \<times> string option"
  env_AllSessionsForUUID ::
    "string \<Rightarrow> 'w \<Rightarrow> (address list option \<times> sessionRecord list option \<times> string option) \<times> 'w"
  env_FetchAndProcessPreKey :: "string \<Rightarrow> int \<Rightarrow> 'w \<Rightarrow> 'w"
  env_NewAddress :: "string \<Rightarrow> nat \<Rightarrow> string + address"
  env_RemoveSession :: "address option \<Rightarrow> 'w \<Rightarrow> string option \<times> 'w"
  env_Marshal :: "content \<Rightarrow> string + bytes"
  env_Encrypt ::
    "bytes \<Rightarrow> address \<Rightarrow> 'w \<Rightarrow> (ciphertextMessage option \<times> string option) \<times> 'w"
  env_SealedSenderEncryptPlaintext ::
    "bytes \<Rightarrow> address \<Rightarrow> certificate option \<Rightarrow> 'w \<Rightarrow> (bytes \<times> string option) \<times> 'w"
  env_UNIDENTIFIED_SENDER :: int
  env_SendHTTPRequest :: "'w \<Rightarrow> (httpResponse option \<times> string option) \<times> 'w"
  env_Base64Decode :: "string \<Rightarrow> string + bytes"
  env_Base64Encode :: "bytes \<Rightarrow> string"
  env_DeserializeSenderCertificate :: "bytes \<Rightarrow> certificate option \<times> string option"
  env_SendRequest :: "connection \<Rightarrow> wsRequest \<Rightarrow> 'w \<Rightarrow> (string + wsResponse) \<times> 'w"
  env_RetrieveGroupByID :: "string \<Rightarrow> 'w \<Rightarrow> (string + groupInfo) \<times> 'w"
  env_groupMetadataForDataMessage :: "groupInfo \<Rightarrow> string"
  env_LoopVarPerIteration :: bool

text \<open>
  The calls that repair the session store or reach the server are recorded, oldest
  first, with their arguments: the prekey fetch, the removal of a session and the
  submission of a request on one of the two websockets.
\<close>

datatype call =
    FetchPreKeyCall string int
  | RemoveSessionCall "address option"
  | SendRequestCall connection wsRequest

text \<open>The state of a \<open>Device\<close> as far as sending goes: the cached sender certificate
  (\<open>d.Connection.SenderCertificate\<close>), the recorded calls, and the outside world.\<close>

record 'w state =
  st_SenderCertificate :: "certificate option"
  st_calls :: "call list"
  st_world :: 'w

subsection \<open>Calls of the capabilities\<close>

definition ProfileKeyForSignalID ::
  "'w env \<Rightarrow> string \<Rightarrow> 'w state \<Rightarrow> (profileKey option \<times> string option) \<times> 'w state" where
  "ProfileKeyForSignalID env uuid s =
     (case env_ProfileKeyForSignalID env uuid (st_world s) of
        (r, w) \<Rightarrow> (r, s\<lparr>st_world := w\<rparr>))"

definition AllSessionsForUUID ::
  "'w env \<Rightarrow> string \<Rightarrow> 'w state
     \<Rightarrow> (address list option \<times> sessionRecord list option \<times> string option) \<times> 'w state" where
  "AllSessionsForUUID env uuid s =
     (case env_AllSessionsForUUID env uuid (st_world s) of
        (r, w) \<Rightarrow> (r, s\<lparr>st_world := w\<rparr>))"

text \<open>\<open>FetchAndProcessPreKey\<close> returns an error that no caller in the modelled
  sources reads.\<close>

definition FetchAndProcessPreKey :: "'w env \<Rightarrow> string \<Rightarrow> int \<Rightarrow> 'w state \<Rightarrow> 'w state" where
  "FetchAndProcessPreKey env uuid deviceID s =
     s\<lparr>st_calls := st_calls s @ [FetchPreKeyCall uuid deviceID],
       st_world := env_FetchAndProcessPreKey env uuid deviceID (st_world s)\<rparr>"

definition RemoveSession ::
  "'w env \<Rightarrow> address option \<Rightarrow> 'w state \<Rightarrow> string option \<times> 'w state" where
  "RemoveSession env recipient s =
     (case env_RemoveSession env recipient (st_world s) of
        (r, w) \<Rightarrow> (r, s\<lparr>st_calls := st_calls s @ [RemoveSessionCall recipient], st_world := w\<rparr>))"

definition Encrypt ::
  "'w env \<Rightarrow> bytes \<Rightarrow> address \<Rightarrow> 'w state
     \<Rightarrow> (ciphertextMessage option \<times> string option) \<times> 'w state" where
  "Encrypt env plaintext recipient s =
     (case env_Encrypt env plaintext recipient (st_world s) of
        (r, w) \<Rightarrow> (r, s\<lparr>st_world := w\<rparr>))"

definition SealedSenderEncryptPlaintext ::
  "'w env \<Rightarrow> bytes \<Rightarrow> address \<Rightarrow> certificate option \<Rightarrow> 'w state
     \<Rightarrow> (bytes \<times> string option) \<times> 'w state" where
  "SealedSenderEncryptPlaintext env plaintext recipient cert s =
     (case env_SealedSenderEncryptPlaintext env plaintext recipient cert (st_world s) of
        (r, w) \<Rightarrow> (r, s\<lparr>st_world := w\<rparr>))"

definition SendHTTPRequest ::
  "'w env \<Rightarrow> 'w state \<Rightarrow> (httpResponse option \<times> string option) \<times> 'w state" where
  "SendHTTPRequest env s =
     (case env_SendHTTPRequest env (st_world s) of (r, w) \<Rightarrow> (r, s\<lparr>st_world := w\<rparr>))"

text \<open>\<open>ws.SendRequest\<close> followed by the read of the response channel.\<close>

definition SendRequest ::
  "'w env \<Rightarrow> connection \<Rightarrow> wsRequest \<Rightarrow> 'w state \<Rightarrow> (string + wsResponse) \<times> 'w state" where
  "SendRequest env conn request s =
     (case env_SendRequest env conn request (st_world s) of
        (r, w) \<Rightarrow> (r, s\<lparr>st_calls := st_calls s @ [SendRequestCall conn request], st_world := w\<rparr>))"

definition RetrieveGroupByID ::
  "'w env \<Rightarrow> string \<Rightarrow> 'w state \<Rightarrow> (string + groupInfo) \<times> 'w state" where
  "RetrieveGroupByID env groupID s =
     (case env_RetrieveGroupByID env groupID (st_world s) of (r, w) \<Rightarrow> (r, s\<lparr>st_world := w\<rparr>))"

subsection \<open>Go slices and decoded JSON\<close>

text \<open>A slice is \<open>nil\<close> (\<open>None\<close>) or a list; \<open>len\<close> of a nil slice is 0 and a
  \<open>range\<close> over it runs no iteration.\<close>

definition slice_len :: "'a list option \<Rightarrow> nat" where
  "slice_len xs = (case xs of None \<Rightarrow> 0 | Some l \<Rightarrow> length l)"

definition slice_list :: "'a list option \<Rightarrow> 'a list" where
  "slice_list xs = (case xs of None \<Rightarrow> [] | Some l \<Rightarrow> l)"

text \<open>\<open>json.Unmarshal(response.Body, &body)\<close> with \<open>body\<close> a
  \<open>map[string]interface{}\<close>: bytes that are not JSON, and JSON that is neither an
  object nor \<open>null\<close>, are errors; \<open>null\<close> leaves the map nil.\<close>

definition json_Unmarshal :: "json option \<Rightarrow> err + (string \<times> json) list" where
  "json_Unmarshal b =
     (case b of
        None \<Rightarrow> Inl (External FromJson ''invalid JSON'')
      | Some (JObject kvs) \<Rightarrow> Inr kvs
      | Some JNull \<Rightarrow> Inr []
      | Some _ \<Rightarrow> Inl (External FromJson ''cannot unmarshal into map''))"

text \<open>\<open>body[key]\<close> compared with \<open>nil\<close>: absent keys and JSON \<open>null\<close> are \<open>nil\<close>.\<close>

definition body_field :: "(string \<times> json) list \<Rightarrow> string \<Rightarrow> json option" where
  "body_field body key =
     (case map_of body key of None \<Rightarrow> None | Some JNull \<Rightarrow> None | Some v \<Rightarrow> Some v)"

text \<open>The type assertions \<open>v.([]interface{})\<close> and \<open>v.(float64)\<close>; \<open>None\<close> is the
  panic of a failed assertion.\<close>

definition assert_array :: "json \<Rightarrow> json list option" where
  "assert_array v = (case v of JArray l \<Rightarrow> Some l | _ \<Rightarrow> None)"

definition assert_float64 :: "json \<Rightarrow> int option" where
  "assert_float64 v = (case v of JNumber n \<Rightarrow> Some n | _ \<Rightarrow> None)"

text \<open>
  The conversions \<open>int(x)\<close> and \<open>uint(x)\<close> of a \<open>float64\<close> with an integer
  value, for 64-bit \<open>int\<close> and \<open>uint\<close>.  A value the target type can represent is
  kept.  For the others the Go specification leaves the result to the implementation;
  the results here are those of the amd64 compiler: \<open>int(x)\<close> is the smallest
  \<open>int\<close>; \<open>uint(x)\<close> of a negative \<open>x\<close> that fits \<open>int\<close> is its two's
  complement (\<open>uint(-1)\<close> is \<open>18446744073709551615\<close>), and \<open>2 ^ 63\<close> beyond.
\<close>

definition float64_to_int :: "int \<Rightarrow> int" where
  "float64_to_int x = (if - (2 ^ 63) \<le> x \<and> x < 2 ^ 63 then x else - (2 ^ 63))"

definition float64_to_uint :: "int \<Rightarrow> nat" where
  "float64_to_uint x =
     (if 0 \<le> x \<and> x < 2 ^ 64 then nat x
      else if - (2 ^ 63) \<le> x \<and> x < 0 then nat (x + 2 ^ 64)
      else 2 ^ 63)"

text \<open>\<open>json.Marshal\<close> of a \<open>MyMessages\<close> value, field names from the struct tags.
  Encoding a struct of integers, booleans and strings does not fail.\<close>

definition marshal_MyMessage :: "MyMessage \<Rightarrow> json" where
  "marshal_MyMessage m =
     JObject [(''type'', JNumber (msg_Type m)),
              (''destinationDeviceId'', JNumber (msg_DestinationDeviceID m)),
              (''destinationRegistrationId'', JNumber (msg_DestinationRegistrationID m)),
              (''content'', JString (msg_Content m))]"

definition json_Marshal :: "MyMessages \<Rightarrow> err + json" where
  "json_Marshal ms =
     Inr (JObject [(''timestamp'', JNumber (msgs_Timestamp ms)),
                   (''online'', JBool (msgs_Online ms)),
                   (''urgent'', JBool (msgs_Urgent ms)),
                   (''messages'', JArray (map marshal_MyMessage (msgs_Messages ms)))])"

text \<open>\<open>web.CreateWSRequest(verb, path, body, nil, nil)\<close>: a request without headers.\<close>

definition CreateWSRequest :: "string \<Rightarrow> string \<Rightarrow> json \<Rightarrow> wsRequest" where
  "CreateWSRequest verb path body =
     \<lparr>req_Verb = verb, req_Path = path, req_Body = body, req_Headers = []\<rparr>"

subsection \<open>The sender certificate\<close>

text \<open>
  \<open>senderCertificate\<close>.  The deferred \<open>resp.Body.Close()\<close> is evaluated before the
  error of the request is looked at, so a nil response is a nil dereference.
\<close>

definition senderCertificate ::
  "'w env \<Rightarrow> 'w state \<Rightarrow> (certificate option \<times> err option) \<times> 'w state" where
  "senderCertificate env s =
     (case st_SenderCertificate s of
        Some cert \<Rightarrow> ((Some cert, None), s)
      | None \<Rightarrow>
          (case SendHTTPRequest env s of
             ((resp, err), s) \<Rightarrow>
               (case resp of
                  None \<Rightarrow> ((None, Some (RuntimePanic ''nil pointer dereference'')), s)
                | Some resp \<Rightarrow>
                    (case err of
                       Some e \<Rightarrow> ((None, Some (External FromCertificate e)), s)
                     | None \<Rightarrow>
                         if http_StatusCode resp < 200 \<or> http_StatusCode resp \<ge> 300
                         then ((None, Some (HTTPError (http_StatusCode resp))), s)
                         else
                           (case http_Certificate resp of
                              Inl e \<Rightarrow> ((None, Some (External FromJson e)), s)
                            | Inr base64Certificate \<Rightarrow>
                                (case env_Base64Decode env base64Certificate of
                                   Inl e \<Rightarrow> ((None, Some (External FromCertificate e)), s)
                                 | Inr rawCertificate \<Rightarrow>
                                     (case env_DeserializeSenderCertificate env rawCertificate of
                                        (cert, err) \<Rightarrow>
                                          ((cert, map_option (External FromCertificate) err),
                                           s\<lparr>st_SenderCertificate := cert\<rparr>))))))))"

subsection \<open>Envelope construction\<close>

definition checkForErrorWithSessions ::
  "err option \<Rightarrow> address list option \<Rightarrow> sessionRecord list option \<Rightarrow> err option" where
  "checkForErrorWithSessions err addresses sessionRecords =
     (case err of
        Some e \<Rightarrow> Some e
      | None \<Rightarrow>
          if addresses = None \<or> sessionRecords = None then Some NilSessions
          else if slice_len addresses \<noteq> slice_len sessionRecords
            then Some (MismatchedSessions (slice_len addresses) (slice_len sessionRecords))
          else if slice_len addresses = 0 \<or> slice_len sessionRecords = 0 then Some NoSessions
          else None)"

text \<open>
  \<open>buildAuthedMessageToSend\<close>.  The error of \<open>libsignalgo.Encrypt\<close> is overwritten
  by the result of \<open>Serialize\<close> before anything reads it, and \<open>Serialize\<close> is
  called on the message whether it is nil or not: on a nil message it dereferences a nil
  pointer.  The error of \<open>MessageType\<close> is discarded.
\<close>

definition buildAuthedMessageToSend ::
  "'w env \<Rightarrow> address \<Rightarrow> bytes \<Rightarrow> 'w state \<Rightarrow> (int \<times> bytes \<times> err option) \<times> 'w state" where
  "buildAuthedMessageToSend env recipientAddress paddedMessage s =
     (case Encrypt env paddedMessage recipientAddress s of
        ((cipherTextMessage, err), s) \<Rightarrow>
          (case cipherTextMessage of
             None \<Rightarrow> ((0, [], Some (RuntimePanic ''nil pointer dereference'')), s)
           | Some cipherTextMessage \<Rightarrow>
               (case cm_Serialize cipherTextMessage of
                  Inl e \<Rightarrow> ((0, [], Some (External FromCipher e)), s)
                | Inr encryptedPayload \<Rightarrow>
                    let cipherMessageType = cm_MessageType cipherTextMessage in
                    if cipherMessageType = CiphertextMessageTypePreKey
                      then ((Envelope_PREKEY_BUNDLE, encryptedPayload, None), s)
                    else if cipherMessageType = CiphertextMessageTypeWhisper
                      then ((Envelope_CIPHERTEXT, encryptedPayload, None), s)
                    else ((0, [], Some (UnknownMessageType cipherMessageType)), s))))"

text \<open>
  \<open>buildSSMessageToSend\<close>.  The error of \<open>SealedSenderEncryptPlaintext\<close> is assigned
  and never returned: the function ends with \<open>return envelopeType, encryptedPayload, nil\<close>.
\<close>

definition buildSSMessageToSend ::
  "'w env \<Rightarrow> address \<Rightarrow> bytes \<Rightarrow> 'w state \<Rightarrow> (int \<times> bytes \<times> err option) \<times> 'w state" where
  "buildSSMessageToSend env recipientAddress paddedMessage s =
     (case senderCertificate env s of
        ((cert, err), s) \<Rightarrow>
          (case err of
             Some e \<Rightarrow> ((0, [], Some e), s)
           | None \<Rightarrow>
               (case SealedSenderEncryptPlaintext env paddedMessage recipientAddress cert s of
                  ((encryptedPayload, err), s) \<Rightarrow>
                    ((env_UNIDENTIFIED_SENDER env, encryptedPayload, None), s))))"

text \<open>
  The body of the loop of \<open>buildMessagesToSend\<close> for one address, from the call of
  \<open>addPadding\<close> on.  The error of \<open>addPadding\<close> is overwritten unread, and so is
  the error of \<open>buildSSMessageToSend\<close> or \<open>buildAuthedMessageToSend\<close>: the next
  statement, \<open>destinationRegistrationID, err := sessionRecord.GetRemoteRegistrationID()\<close>,
  assigns \<open>err\<close> again, and only that value is tested.  A panic is not an error value
  and is passed on.  The result is the envelope to append, or the error returned.
\<close>

definition buildOneMessage ::
  "'w env \<Rightarrow> bool \<Rightarrow> address \<Rightarrow> nat \<Rightarrow> sessionRecord list \<Rightarrow> nat \<Rightarrow> bytes \<Rightarrow> 'w state
     \<Rightarrow> (err + MyMessage) \<times> 'w state" where
  "buildOneMessage env unauthenticated recipientAddress recipientDeviceID sessionRecords i
       serializedMessage s =
     (case (case addPadding 3 serializedMessage of
              Inl e \<Rightarrow> if is_panic (Some e) then Inl e else Inr []
            | Inr padded \<Rightarrow> Inr padded) of
        Inl p \<Rightarrow> (Inl p, s)
      | Inr paddedMessage \<Rightarrow>
          if i \<ge> length sessionRecords then (Inl (RuntimePanic ''index out of range''), s)
          else
            let sessionRecord = sessionRecords ! i in
            (case (if unauthenticated
                   then buildSSMessageToSend env recipientAddress paddedMessage s
                   else buildAuthedMessageToSend env recipientAddress paddedMessage s) of
               ((envelopeType, encryptedPayload, err), s) \<Rightarrow>
                 if is_panic err then (Inl (the err), s)
                 else
                   (case rec_RemoteRegistrationID sessionRecord of
                      Inl e \<Rightarrow> (Inl (External FromSessionRecord e), s)
                    | Inr destinationRegistrationID \<Rightarrow>
                        (Inr \<lparr>msg_Type = envelopeType,
                              msg_DestinationDeviceID = int recipientDeviceID,
                              msg_DestinationRegistrationID = int destinationRegistrationID,
                              msg_Content = env_Base64Encode env encryptedPayload\<rparr>, s))))"

text \<open>The loop \<open>for i, recipientAddress := range addresses\<close> of
  \<open>buildMessagesToSend\<close>; an error returns \<open>nil\<close> for the messages.\<close>

fun buildLoop ::
  "'w env \<Rightarrow> content \<Rightarrow> bool \<Rightarrow> sessionRecord list \<Rightarrow> nat \<Rightarrow> address list \<Rightarrow> MyMessage list
     \<Rightarrow> 'w state \<Rightarrow> (MyMessage list \<times> err option) \<times> 'w state" where
  "buildLoop env content unauthenticated sessionRecords i [] messages s = ((messages, None), s)"
| "buildLoop env content unauthenticated sessionRecords i (recipientAddress # rest) messages s =
     (case addr_DeviceID recipientAddress of
        Inl e \<Rightarrow> (([], Some (External FromAddress e)), s)
      | Inr recipientDeviceID \<Rightarrow>
          (case env_Marshal env content of
             Inl e \<Rightarrow> (([], Some (External FromMarshal e)), s)
           | Inr serializedMessage \<Rightarrow>
               (case buildOneMessage env unauthenticated recipientAddress recipientDeviceID
                       sessionRecords i serializedMessage s of
                  (Inl e, s) \<Rightarrow> (([], Some e), s)
                | (Inr outgoingMessage, s) \<Rightarrow>
                    buildLoop env content unauthenticated sessionRecords (i + 1) rest
                      (messages @ [outgoingMessage]) s)))"

text \<open>The first lines of \<open>buildMessagesToSend\<close>: the sessions known for the
  recipient, looked up again after a prekey fetch for all devices (\<open>-1\<close>) when the
  first lookup reports no error and finds none.\<close>

definition resolveSessions ::
  "'w env \<Rightarrow> string \<Rightarrow> 'w state
     \<Rightarrow> (address list option \<times> sessionRecord list option \<times> string option) \<times> 'w state" where
  "resolveSessions env recipientUuid s =
     (case AllSessionsForUUID env recipientUuid s of
        ((addresses, sessionRecords, err), s) \<Rightarrow>
          if err = None \<and> (slice_len addresses = 0 \<or> slice_len sessionRecords = 0)
          then AllSessionsForUUID env recipientUuid
                 (FetchAndProcessPreKey env recipientUuid (- 1) s)
          else ((addresses, sessionRecords, err), s))"

definition buildMessagesToSend ::
  "'w env \<Rightarrow> string \<Rightarrow> content \<Rightarrow> bool \<Rightarrow> 'w state \<Rightarrow> (MyMessage list \<times> err option) \<times> 'w state" where
  "buildMessagesToSend env recipientUuid content unauthenticated s =
     (case resolveSessions env recipientUuid s of
        ((addresses, sessionRecords, err), s) \<Rightarrow>
          (case checkForErrorWithSessions (map_option (External FromSessionStore) err)
                  addresses sessionRecords of
             Some e \<Rightarrow> (([], Some e), s)
           | None \<Rightarrow>
               buildLoop env content unauthenticated (slice_list sessionRecords) 0
                 (slice_list addresses) [] s))"

subsection \<open>Repairs after a 409, 410 or 428 response\<close>

text \<open>The loop over \<open>missingDevices\<close> of \<open>handle409\<close>.\<close>

fun fetchMissingDevices ::
  "'w env \<Rightarrow> string \<Rightarrow> json list \<Rightarrow> 'w state \<Rightarrow> err option \<times> 'w state" where
  "fetchMissingDevices env recipientUuid [] s = (None, s)"
| "fetchMissingDevices env recipientUuid (missingDevice # rest) s =
     (case assert_float64 missingDevice of
        None \<Rightarrow> (Some (RuntimePanic ''interface conversion''), s)
      | Some n \<Rightarrow>
          fetchMissingDevices env recipientUuid rest
            (FetchAndProcessPreKey env recipientUuid (float64_to_int n) s))"

text \<open>The loop over \<open>extraDevices\<close> of \<open>handle409\<close>.\<close>

fun removeExtraDevices ::
  "'w env \<Rightarrow> string \<Rightarrow> json list \<Rightarrow> 'w state \<Rightarrow> err option \<times> 'w state" where
  "removeExtraDevices env recipientUuid [] s = (None, s)"
| "removeExtraDevices env recipientUuid (extraDevice # rest) s =
     (case assert_float64 extraDevice of
        None \<Rightarrow> (Some (RuntimePanic ''interface conversion''), s)
      | Some n \<Rightarrow>
          (case env_NewAddress env recipientUuid (float64_to_uint n) of
             Inl e \<Rightarrow> (Some (External FromAddress e), s)
           | Inr recipient \<Rightarrow>
               (case RemoveSession env (Some recipient) s of
                  (Some e, s) \<Rightarrow> (Some (External FromSessionStore e), s)
                | (None, s) \<Rightarrow> removeExtraDevices env recipientUuid rest s)))"

definition handle409 ::
  "'w env \<Rightarrow> string \<Rightarrow> wsResponse \<Rightarrow> 'w state \<Rightarrow> err option \<times> 'w state" where
  "handle409 env recipientUuid response s =
     (case json_Unmarshal (resp_Body response) of
        Inl e \<Rightarrow> (Some e, s)
      | Inr body \<Rightarrow>
          (case (case body_field body ''missingDevices'' of
                   None \<Rightarrow> (None, s)
                 | Some v \<Rightarrow>
                     (case assert_array v of
                        None \<Rightarrow> (Some (RuntimePanic ''interface conversion''), s)
                      | Some missingDevices \<Rightarrow>
                          fetchMissingDevices env recipientUuid missingDevices s)) of
             (Some p, s) \<Rightarrow> (Some p, s)
           | (None, s) \<Rightarrow>
               (case body_field body ''extraDevices'' of
                  None \<Rightarrow> (None, s)
                | Some v \<Rightarrow>
                    (case assert_array v of
                       None \<Rightarrow> (Some (RuntimePanic ''interface conversion''), s)
                     | Some extraDevices \<Rightarrow>
                         removeExtraDevices env recipientUuid extraDevices s))))"

text \<open>
  The loop over \<open>staleDevices\<close> of \<open>handle410\<close>.  The error of \<open>NewAddress\<close> is
  overwritten by the result of \<open>RemoveSession\<close>; the address it returned (nil on an
  error) is passed on.
\<close>

fun refreshStaleDevices ::
  "'w env \<Rightarrow> string \<Rightarrow> json list \<Rightarrow> 'w state \<Rightarrow> err option \<times> 'w state" where
  "refreshStaleDevices env recipientUuid [] s = (None, s)"
| "refreshStaleDevices env recipientUuid (staleDevice # rest) s =
     (case assert_float64 staleDevice of
        None \<Rightarrow> (Some (RuntimePanic ''interface conversion''), s)
      | Some n \<Rightarrow>
          let recipient = (case env_NewAddress env recipientUuid (float64_to_uint n) of
                             Inl e \<Rightarrow> None
                           | Inr a \<Rightarrow> Some a) in
          (case RemoveSession env recipient s of
             (Some e, s) \<Rightarrow> (Some (External FromSessionStore e), s)
           | (None, s) \<Rightarrow>
               refreshStaleDevices env recipientUuid rest
                 (FetchAndProcessPreKey env recipientUuid (float64_to_int n) s)))"

definition handle410 ::
  "'w env \<Rightarrow> string \<Rightarrow> wsResponse \<Rightarrow> 'w state \<Rightarrow> err option \<times> 'w state" where
  "handle410 env recipientUuid response s =
     (case json_Unmarshal (resp_Body response) of
        Inl e \<Rightarrow> (Some e, s)
      | Inr body \<Rightarrow>
          (case body_field body ''staleDevices'' of
             None \<Rightarrow> (None, s)
           | Some v \<Rightarrow>
               (case assert_array v of
                  None \<Rightarrow> (Some (RuntimePanic ''interface conversion''), s)
                | Some staleDevices \<Rightarrow>
                    refreshStaleDevices env recipientUuid staleDevices s)))"

text \<open>
  \<open>handle428\<close> reads the \<open>Retry-After\<close> header and logs it; it repairs nothing and
  waits for nothing.  \<open>strings.Split(header, ":")[1]\<close> is out of range for a header
  without a colon.
\<close>

definition handle428 ::
  "'w env \<Rightarrow> string \<Rightarrow> wsResponse \<Rightarrow> 'w state \<Rightarrow> err option \<times> 'w state" where
  "handle428 env recipientUuid response s =
     (case json_Unmarshal (resp_Body response) of
        Inl e \<Rightarrow> (Some e, s)
      | Inr body \<Rightarrow>
          if list_ex (\<lambda>header. CHR '':'' \<notin> set header) (resp_Headers response)
          then (Some (RuntimePanic ''index out of range''), s)
          else (None, s))"

subsection \<open>\<open>sendContent\<close>\<close>

definition retryableStatuses :: "u32 list" where
  "retryableStatuses = [409, 410, 428, 500, 503]"

text \<open>
  The choice between sealed and authenticated sending at the head of \<open>sendContent\<close>:
  the flag \<open>useUnidentifiedSender\<close> and the access key.  Both errors are logged and
  then overwritten; \<open>DeriveAccessKey\<close> is called on the profile key even when it is nil.
\<close>

definition sealedSenderSelector ::
  "'w env \<Rightarrow> string \<Rightarrow> 'w state \<Rightarrow> (bool \<times> accessKey option) \<times> 'w state" where
  "sealedSenderSelector env recipientUuid s =
     (case ProfileKeyForSignalID env recipientUuid s of
        ((profileKey, err), s) \<Rightarrow>
          let err = map_option (External FromProfileKey) err;
              useUnidentifiedSender = True;
              useUnidentifiedSender =
                (if err \<noteq> None \<or> profileKey = None then False else useUnidentifiedSender)
          in
          (case env_DeriveAccessKey env profileKey of
             (accessKey, err) \<Rightarrow>
               let err = map_option (External FromDeriveAccessKey) err;
                   useUnidentifiedSender =
                     (if err \<noteq> None then False else useUnidentifiedSender)
               in ((useUnidentifiedSender, accessKey), s)))"

text \<open>
  The submission of the messages built, up to the arrival of the response: the body, the
  request, the header of a sealed send (\<open>accessKey[:]\<close> dereferences the access key)
  and the choice of the websocket.  The result is the value of \<open>sentUnidentified\<close> and
  the error returned at once or the response.
\<close>

definition dispatchMessages ::
  "'w env \<Rightarrow> string \<Rightarrow> u64 \<Rightarrow> bool \<Rightarrow> accessKey option \<Rightarrow> MyMessage list \<Rightarrow> 'w state
     \<Rightarrow> (bool \<times> (err + wsResponse)) \<times> 'w state" where
  "dispatchMessages env recipientUuid messageTimestamp useUnidentifiedSender accessKey messages s =
     (let outgoingMessages =
            \<lparr>msgs_Timestamp = sint messageTimestamp, msgs_Online = False,
             msgs_Urgent = True, msgs_Messages = messages\<rparr>
      in
      case json_Marshal outgoingMessages of
        Inl e \<Rightarrow> ((False, Inl e), s)
      | Inr jsonBytes \<Rightarrow>
          let path = ''/v1/messages/'' @ recipientUuid;
              request = CreateWSRequest ''PUT'' path jsonBytes
          in
          if useUnidentifiedSender then
            (case accessKey of
               None \<Rightarrow> ((False, Inl (RuntimePanic ''nil pointer dereference'')), s)
             | Some key \<Rightarrow>
                 let base64AccessKey = env_Base64Encode env key;
                     request = request\<lparr>req_Headers := req_Headers request @
                       [''unidentified-access-key:'' @ base64AccessKey]\<rparr>
                 in
                 (case SendRequest env UnauthedWS request s of
                    (Inl e, s) \<Rightarrow> ((useUnidentifiedSender, Inl (External FromTransport e)), s)
                  | (Inr response, s) \<Rightarrow> ((useUnidentifiedSender, Inr response), s)))
          else
            (case SendRequest env AuthedWS request s of
               (Inl e, s) \<Rightarrow> ((useUnidentifiedSender, Inl (External FromTransport e)), s)
             | (Inr response, s) \<Rightarrow> ((useUnidentifiedSender, Inr response), s)))"

text \<open>One attempt of \<open>sendContent\<close>: selection, envelope construction (an error
  returns \<open>false, err\<close>) and submission.\<close>

definition sendContent_dispatch ::
  "'w env \<Rightarrow> string \<Rightarrow> u64 \<Rightarrow> content \<Rightarrow> 'w state \<Rightarrow> (bool \<times> (err + wsResponse)) \<times> 'w state" where
  "sendContent_dispatch env recipientUuid messageTimestamp content s =
     (case sealedSenderSelector env recipientUuid s of
        ((useUnidentifiedSender, accessKey), s) \<Rightarrow>
          (case buildMessagesToSend env recipientUuid content useUnidentifiedSender s of
             ((messages, err), s) \<Rightarrow>
               (case err of
                  Some e \<Rightarrow> ((False, Inl e), s)
                | None \<Rightarrow>
                    dispatchMessages env recipientUuid messageTimestamp useUnidentifiedSender
                      accessKey messages s)))"

text \<open>The repair chosen by the status of a retryable response.\<close>

definition sendContent_repair ::
  "'w env \<Rightarrow> string \<Rightarrow> wsResponse \<Rightarrow> 'w state \<Rightarrow> err option \<times> 'w state" where
  "sendContent_repair env recipientUuid response s =
     (if resp_Status response = 409 then handle409 env recipientUuid response s
      else if resp_Status response = 410 then handle410 env recipientUuid response s
      else if resp_Status response = 428 then handle428 env recipientUuid response s
      else (None, s))"

text \<open>
  \<open>sendContent\<close>: the bound on \<open>retryCount\<close>, one attempt, and for a retryable
  status the repair and the recursive call with \<open>retryCount + 1\<close>.
\<close>

function sendContent ::
  "'w env \<Rightarrow> string \<Rightarrow> u64 \<Rightarrow> content \<Rightarrow> int \<Rightarrow> 'w state \<Rightarrow> (bool \<times> err option) \<times> 'w state" where
  "sendContent env recipientUuid messageTimestamp content retryCount s =
     (if retryCount > 3 then ((False, Some TooManyRetries), s)
      else
        (case sendContent_dispatch env recipientUuid messageTimestamp content s of
           ((sentUnidentified, Inl e), s) \<Rightarrow> ((sentUnidentified, Some e), s)
         | ((sentUnidentified, Inr response), s) \<Rightarrow>
             if resp_Status response \<in> set retryableStatuses then
               (case sendContent_repair env recipientUuid response s of
                  (Some e, s) \<Rightarrow> ((False, Some e), s)
                | (None, s) \<Rightarrow>
                    sendContent env recipientUuid messageTimestamp content (retryCount + 1) s)
             else if resp_Status response \<noteq> 200
               then ((sentUnidentified, Some (UnexpectedStatus (resp_Status response))), s)
             else ((sentUnidentified, None), s)))"
  by pat_completeness auto
termination
  by (relation "measure (\<lambda>(env, recipientUuid, messageTimestamp, content, retryCount, s).
                           nat (4 - retryCount))") auto

declare sendContent.simps [simp del]


subsection \<open>Entry points: \<open>SendMessage\<close> and \<open>SendGroupMessage\<close>\<close>

definition currentMessageTimestamp :: "'w env \<Rightarrow> 'w state \<Rightarrow> u64" where
  "currentMessageTimestamp env s = word_of_int (env_UnixMilli env (st_world s))"

definition dataMessageFromText :: "string \<Rightarrow> u64 \<Rightarrow> dataMessage" where
  "dataMessageFromText text timestamp =
     \<lparr>dm_Body = text, dm_Timestamp = timestamp, dm_GroupV2 = None\<rparr>"

text \<open>
  The two sync messages.  The loop of the group variant stores in every delivery status
  the addresses of the fields of the loop variable \<open>result\<close>
  (\<open>&result.RecipientUuid\<close>, \<open>&result.Unidentified\<close>).  The message is serialized
  after the loop.  With one variable per iteration every status holds the values of its
  own result; with one variable for the whole loop all statuses point to the same
  variable, which then holds the last result.
\<close>

definition unidentifiedStatusOf :: "SuccessfulSendResult \<Rightarrow> unidentifiedDeliveryStatus" where
  "unidentifiedStatusOf result =
     \<lparr>uds_DestinationUuid = ok_RecipientUuid result,
      uds_Unidentified = ok_Unidentified result\<rparr>"

definition syncMessageFromGroupDataMessage ::
  "'w env \<Rightarrow> dataMessage \<Rightarrow> SuccessfulSendResult list \<Rightarrow> content" where
  "syncMessageFromGroupDataMessage env dataMessage results =
     \<lparr>c_DataMessage = None,
      c_SyncMessage = Some
        \<lparr>sent_Message = dataMessage,
         sent_DestinationUuid = None,
         sent_Timestamp = dm_Timestamp dataMessage,
         sent_UnidentifiedStatus =
           (if env_LoopVarPerIteration env then map unidentifiedStatusOf results
            else map (\<lambda>result. unidentifiedStatusOf (last results)) results)\<rparr>\<rparr>"

definition syncMessageFromSoloDataMessage ::
  "dataMessage \<Rightarrow> SuccessfulSendResult \<Rightarrow> content" where
  "syncMessageFromSoloDataMessage dataMessage result =
     \<lparr>c_DataMessage = None,
      c_SyncMessage = Some
        \<lparr>sent_Message = dataMessage,
         sent_DestinationUuid = Some (ok_RecipientUuid result),
         sent_Timestamp = dm_Timestamp dataMessage,
         sent_UnidentifiedStatus =
           [\<lparr>uds_DestinationUuid = ok_RecipientUuid result,
             uds_Unidentified = ok_Unidentified result\<rparr>]\<rparr>\<rparr>"

text \<open>The counting loop of \<open>howManyOtherDevicesDoWeHave\<close>: an address whose device
  id cannot be read is skipped.\<close>

fun countOtherDevices :: "nat \<Rightarrow> address list \<Rightarrow> nat \<Rightarrow> nat" where
  "countOtherDevices ownDeviceId [] otherDevices = otherDevices"
| "countOtherDevices ownDeviceId (address # rest) otherDevices =
     (case addr_DeviceID address of
        Inl e \<Rightarrow> countOtherDevices ownDeviceId rest otherDevices
      | Inr deviceID \<Rightarrow>
          countOtherDevices ownDeviceId rest
            (if deviceID \<noteq> ownDeviceId then otherDevices + 1 else otherDevices))"

definition howManyOtherDevicesDoWeHave :: "'w env \<Rightarrow> 'w state \<Rightarrow> nat \<times> 'w state" where
  "howManyOtherDevicesDoWeHave env s =
     (case AllSessionsForUUID env (env_AciUuid env) s of
        ((addresses, sessionRecords, err), s) \<Rightarrow>
          if err \<noteq> None then (0, s)
          else (countOtherDevices (env_DeviceId env) (slice_list addresses) 0, s))"

text \<open>
  \<open>SendMessage\<close>.  The function returns a \<open>SendMessageResult\<close> and no error; \<open>Inl\<close>
  is a panic raised below it.  The error of the sync message to the sender's own account
  is logged and not read again.
\<close>

definition SendMessage ::
  "'w env \<Rightarrow> string \<Rightarrow> string \<Rightarrow> 'w state \<Rightarrow> (err + SendMessageResult) \<times> 'w state" where
  "SendMessage env recipientUuid text s =
     (let messageTimestamp = currentMessageTimestamp env s;
          dataMessage = dataMessageFromText text messageTimestamp;
          content = \<lparr>c_DataMessage = Some dataMessage, c_SyncMessage = None\<rparr>
      in
      case sendContent env recipientUuid messageTimestamp content 0 s of
        ((sentUnidentified, err), s) \<Rightarrow>
          (case err of
             Some e \<Rightarrow>
               if is_panic err then (Inl e, s)
               else (Inr \<lparr>res_WasSuccessful = False,
                          res_SuccessfulSendResult = None,
                          res_FailedSendResult =
                            Some \<lparr>ko_RecipientUuid = recipientUuid, ko_Error = e\<rparr>\<rparr>, s)
           | None \<Rightarrow>
               let success = \<lparr>ok_RecipientUuid = recipientUuid,
                              ok_Unidentified = sentUnidentified\<rparr>;
                   result = \<lparr>res_WasSuccessful = True,
                             res_SuccessfulSendResult = Some success,
                             res_FailedSendResult = None\<rparr>;
                   s = FetchAndProcessPreKey env (env_AciUuid env) (- 1) s
               in
               (case howManyOtherDevicesDoWeHave env s of
                  (otherDevices, s) \<Rightarrow>
                    if otherDevices > 0 then
                      (let syncContent = syncMessageFromSoloDataMessage dataMessage success in
                       case sendContent env (env_AciUuid env) messageTimestamp syncContent 0 s of
                         ((selfSentUnidentified, selfSendErr), s) \<Rightarrow>
                           if is_panic selfSendErr then (Inl (the selfSendErr), s)
                           else (Inr result, s))
                    else (Inr result, s))))"

text \<open>The loop over the members of the group in \<open>SendGroupMessage\<close>; \<open>Inl\<close> is a
  panic.\<close>

fun sendToMembers ::
  "'w env \<Rightarrow> u64 \<Rightarrow> content \<Rightarrow> string list \<Rightarrow> GroupMessageSendResult \<Rightarrow> 'w state
     \<Rightarrow> (err + GroupMessageSendResult) \<times> 'w state" where
  "sendToMembers env messageTimestamp content [] result s = (Inr result, s)"
| "sendToMembers env messageTimestamp content (member # rest) result s =
     (if member = env_AciUuid env
      then sendToMembers env messageTimestamp content rest result s
      else
        (case sendContent env member messageTimestamp content 0 s of
           ((sentUnidentified, err), s) \<Rightarrow>
             (case err of
                Some e \<Rightarrow>
                  if is_panic err then (Inl e, s)
                  else sendToMembers env messageTimestamp content rest
                         (result\<lparr>grp_FailedToSendTo := grp_FailedToSendTo result @
                            [\<lparr>ko_RecipientUuid = member, ko_Error = e\<rparr>]\<rparr>) s
              | None \<Rightarrow>
                  sendToMembers env messageTimestamp content rest
                    (result\<lparr>grp_SuccessfullySentTo := grp_SuccessfullySentTo result @
                       [\<lparr>ok_RecipientUuid = member, ok_Unidentified = sentUnidentified\<rparr>]\<rparr>) s)))"

definition SendGroupMessage ::
  "'w env \<Rightarrow> string \<Rightarrow> string \<Rightarrow> 'w state
     \<Rightarrow> (GroupMessageSendResult option \<times> err option) \<times> 'w state" where
  "SendGroupMessage env groupID text s =
     (case RetrieveGroupByID env groupID s of
        (Inl e, s) \<Rightarrow> ((None, Some (External FromGroupStore e)), s)
      | (Inr groupV2, s) \<Rightarrow>
          let messageTimestamp = currentMessageTimestamp env s;
              dataMessage = (dataMessageFromText text messageTimestamp)
                \<lparr>dm_GroupV2 := Some (env_groupMetadataForDataMessage env groupV2)\<rparr>;
              content = \<lparr>c_DataMessage = Some dataMessage, c_SyncMessage = None\<rparr>
          in
          (case sendToMembers env messageTimestamp content (group_Members groupV2)
                  \<lparr>grp_SuccessfullySentTo = [], grp_FailedToSendTo = []\<rparr> s of
             (Inl p, s) \<Rightarrow> ((None, Some p), s)
           | (Inr result, s) \<Rightarrow>
               (case howManyOtherDevicesDoWeHave env s of
                  (otherDevices, s) \<Rightarrow>
                    if otherDevices > 0 then
                      (let syncContent = syncMessageFromGroupDataMessage env dataMessage
                                           (grp_SuccessfullySentTo result) in
                       case sendContent env (env_AciUuid env) messageTimestamp syncContent 0 s of
                         ((selfSentUnidentified, selfSendErr), s) \<Rightarrow>
                           if is_panic selfSendErr then ((None, selfSendErr), s)
                           else ((Some result, None), s))
                    else ((Some result, None), s))))"


subsection \<open>Notions used in the statements\<close>

text \<open>Submissions of a request among the recorded calls.\<close>

fun is_send :: "call \<Rightarrow> bool" where
  "is_send (SendRequestCall conn request) = True"
| "is_send c = False"

definition sends :: "call list \<Rightarrow> nat" where
  "sends calls = length (filter is_send calls)"

text \<open>A decoded response body lists the device ids \<open>ds\<close> under \<open>key\<close>: the key holds
  an array of exactly these numbers, or is absent (or \<open>null\<close>) and \<open>ds\<close> is empty.\<close>

definition lists_devices :: "(string \<times> json) list \<Rightarrow> string \<Rightarrow> int list \<Rightarrow> bool" where
  "lists_devices body key ds =
     (case body_field body key of
        None \<Rightarrow> ds = []
      | Some v \<Rightarrow> v = JArray (map JNumber ds))"

text \<open>The calls recorded in \<open>s'\<close> are those of \<open>s\<close> followed by calls that all
  satisfy \<open>P\<close>.\<close>

definition calls_extend :: "(call \<Rightarrow> bool) \<Rightarrow> 'w state \<Rightarrow> 'w state \<Rightarrow> bool" where
  "calls_extend P s s' = (\<exists>ext. st_calls s' = st_calls s @ ext \<and> list_all P ext)"

text \<open>The fields of one entry of \<open>messages\<close> on the wire.\<close>

fun entry_fields :: "json \<Rightarrow> (int \<times> int \<times> int \<times> string) option" where
  "entry_fields (JObject [(k1, JNumber t), (k2, JNumber d), (k3, JNumber r), (k4, JString c)]) =
     (if k1 = ''type'' \<and> k2 = ''destinationDeviceId'' \<and> k3 = ''destinationRegistrationId'' \<and>
         k4 = ''content''
      then Some (t, d, r, c) else None)"
| "entry_fields v = None"


text \<open>The wire form of a request body: \<open>timestamp\<close>, \<open>online\<close>, \<open>urgent\<close> and
  \<open>messages\<close>, in the order of the struct.\<close>

fun body_fields :: "json \<Rightarrow> (int \<times> bool \<times> bool \<times> json list) option" where
  "body_fields (JObject [(k1, JNumber t), (k2, JBool online), (k3, JBool urgent), (k4, JArray ms)]) =
     (if k1 = ''timestamp'' \<and> k2 = ''online'' \<and> k3 = ''urgent'' \<and> k4 = ''messages''
      then Some (t, online, urgent, ms) else None)"
| "body_fields v = None"

text \<open>
  What a recorded submission must look like for the send of \<open>content\<close> to
  \<open>recipientUuid\<close> at \<open>messageTimestamp\<close>: a \<open>PUT\<close> to
  \<open>/v1/messages/{recipientUuid}\<close>; a body with the timestamp, \<open>online = false\<close>,
  \<open>urgent = true\<close> and entries whose content is a base64 text; on the unauthenticated
  socket exactly one header, \<open>unidentified-access-key:\<close> followed by the base64 text of
  an access key derived by \<open>DeriveAccessKey\<close>, and on the authenticated socket no header.
  Other calls are not constrained.
\<close>

definition wire_ok :: "'w env \<Rightarrow> string \<Rightarrow> u64 \<Rightarrow> call \<Rightarrow> bool" where
  "wire_ok env recipientUuid messageTimestamp c =
     (case c of
        SendRequestCall conn request \<Rightarrow>
          req_Verb request = ''PUT'' \<and>
          req_Path request = ''/v1/messages/'' @ recipientUuid \<and>
          (\<exists>entries.
             body_fields (req_Body request) = Some (sint messageTimestamp, False, True, entries) \<and>
             list_all (\<lambda>e. \<exists>t d r payload.
                         entry_fields e = Some (t, d, r, env_Base64Encode env payload)) entries) \<and>
          (case conn of
             UnauthedWS \<Rightarrow>
               (\<exists>pk key. env_DeriveAccessKey env pk = (Some key, None) \<and>
                  req_Headers request =
                    [''unidentified-access-key:'' @ env_Base64Encode env key])
           | AuthedWS \<Rightarrow> req_Headers request = [])
      | _ \<Rightarrow> True)"


text \<open>An error that stems from the profile key lookup or the access key derivation.\<close>

definition from_selector :: "err \<Rightarrow> bool" where
  "from_selector e =
     (case e of
        External origin message \<Rightarrow> origin = FromProfileKey \<or> origin = FromDeriveAccessKey
      | _ \<Rightarrow> False)"


text \<open>The address \<open>NewAddress\<close> returns for a device of an account; nil on an error.\<close>

definition address_of :: "'w env \<Rightarrow> string \<Rightarrow> nat \<Rightarrow> address option" where
  "address_of env recipientUuid deviceID =
     (case env_NewAddress env recipientUuid deviceID of Inl e \<Rightarrow> None | Inr a \<Rightarrow> Some a)"



subsection \<open>A concrete environment\<close>

text \<open>
  An environment to run the definitions on.  The outside world is the list of responses
  the server still has to give, in order; once it is used up the server answers 200.
  The recipient has one device (id 2, registration id 77) with a session; the cipher
  returns the payload \<open>[51, 1]\<close> and reports the message type given as a parameter.
  The base64 encoder is a table for the two byte strings that occur, the empty one and
  \<open>[51, 1]\<close>.
\<close>

definition response_of :: "u32 \<Rightarrow> json option \<Rightarrow> wsResponse" where
  "response_of status body = \<lparr>resp_Status = status, resp_Headers = [], resp_Body = body\<rparr>"

definition demo_address :: "string \<Rightarrow> nat \<Rightarrow> address" where
  "demo_address uuid deviceID = \<lparr>addr_Name = uuid, addr_DeviceID = Inr deviceID\<rparr>"

definition demo_env :: "profileKey option \<Rightarrow> nat \<Rightarrow> (wsResponse list) env" where
  "demo_env profileKey cipherType =
     \<lparr>env_AciUuid = ''alice'',
      env_DeviceId = 1,
      env_UnixMilli = (\<lambda>w. 1700000000000),
      env_ProfileKeyForSignalID =
        (\<lambda>uuid w. ((profileKey,
                      case profileKey of None \<Rightarrow> Some ''profile key not found'' | Some k \<Rightarrow> None), w)),
      env_DeriveAccessKey =
        (\<lambda>pk. case pk of None \<Rightarrow> (None, Some ''null pointer'') | Some k \<Rightarrow> (Some k, None)),
      env_AllSessionsForUUID =
        (\<lambda>uuid w. ((Some [demo_address uuid 2],
                      Some [\<lparr>rec_RemoteRegistrationID = Inr 77\<rparr>], None), w)),
      env_FetchAndProcessPreKey = (\<lambda>uuid deviceID w. w),
      env_NewAddress = (\<lambda>uuid deviceID. Inr (demo_address uuid deviceID)),
      env_RemoveSession = (\<lambda>recipient w. (None, w)),
      env_Marshal = (\<lambda>content. Inr [10, 3, 104, 105]),
      env_Encrypt =
        (\<lambda>plaintext recipient w.
           ((Some \<lparr>cm_Serialize = Inr [51, 1], cm_MessageType = cipherType\<rparr>, None), w)),
      env_SealedSenderEncryptPlaintext = (\<lambda>plaintext recipient cert w. (([51, 1], None), w)),
      env_UNIDENTIFIED_SENDER = 6,
      env_SendHTTPRequest =
        (\<lambda>w. ((Some \<lparr>http_StatusCode = 200, http_Certificate = Inr ''Y2VydA==''\<rparr>, None), w)),
      env_Base64Decode = (\<lambda>text. Inr [99, 101, 114, 116]),
      env_Base64Encode = (\<lambda>payload. if payload = [] then [] else ''MwE=''),
      env_DeserializeSenderCertificate = (\<lambda>raw. (Some raw, None)),
      env_SendRequest =
        (\<lambda>conn request w.
           case w of [] \<Rightarrow> (Inr (response_of 200 None), [])
                   | response # rest \<Rightarrow> (Inr response, rest)),
      env_RetrieveGroupByID =
        (\<lambda>groupID w. (Inr \<lparr>group_Members = [''alice'', ''bob'']\<rparr>, w)),
      env_groupMetadataForDataMessage = (\<lambda>g. ''group''),
      env_LoopVarPerIteration = False\<rparr>"

definition demo_state :: "wsResponse list \<Rightarrow> (wsResponse list) state" where
  "demo_state script = \<lparr>st_SenderCertificate = None, st_calls = [], st_world = script\<rparr>"

definition demo_content :: content where
  "demo_content =
     \<lparr>c_DataMessage = Some (dataMessageFromText ''hi'' 1700000000000), c_SyncMessage = None\<rparr>"


text \<open>The two responses of the specification's examples.\<close>

definition demo_409 :: wsResponse where
  "demo_409 = response_of 409
     (Some (JObject [(''missingDevices'', JArray [JNumber 2]),
                     (''extraDevices'', JArray [JNumber 5])]))"

definition demo_410 :: wsResponse where
  "demo_410 = response_of 410 (Some (JObject [(''staleDevices'', JArray [JNumber 3])]))"






definition demo_env_no_address :: "(wsResponse list) env" where
  "demo_env_no_address =
     (demo_env None 3)\<lparr>env_NewAddress := (\<lambda>uuid deviceID. Inl ''invalid address'')\<rparr>"

section \<open>Properties of the padding codec\<close>

lemma zeroFrom_length: "length (zeroFrom block i) = length block"
proof (induction block i rule: zeroFrom.induct)
  case (1 block i)
  show ?case
  proof (cases "i < length block")
    case True
    with "1" show ?thesis by (subst zeroFrom.simps) simp
  next
    case False
    then show ?thesis by (subst zeroFrom.simps) simp
  qed
qed

lemma zeroFrom_nth:
  "j < length block \<Longrightarrow> zeroFrom block i ! j = (if i \<le> j then 0 else block ! j)"
proof (induction block i rule: zeroFrom.induct)
  case (1 block i)
  show ?case
  proof (cases "i < length block")
    case True
    have "zeroFrom block i ! j = zeroFrom (block[i := 0]) (Suc i) ! j"
      using True by (subst zeroFrom.simps) simp
    also have "\<dots> = (if Suc i \<le> j then 0 else (block[i := 0]) ! j)"
      using "1.IH" [OF True] "1.prems" by simp
    also have "\<dots> = (if i \<le> j then 0 else block ! j)"
      using True "1.prems" by (cases "i = j") auto
    finally show ?thesis .
  next
    case False
    then show ?thesis using "1.prems" by (subst zeroFrom.simps) simp
  qed
qed

lemma messageLengthWithPadding_gt: "n < messageLengthWithPadding n"
proof -
  define q where "q = (n + 1) div 160"
  define r where "r = (n + 1) mod 160"
  have split: "n + 1 = q * 160 + r" by (simp add: q_def r_def)
  have r: "r < 160" by (simp add: r_def)
  have "n < (if r \<noteq> 0 then q + 1 else q) * 160"
    using split r by (cases "r = 0") simp_all
  then show ?thesis
    unfolding messageLengthWithPadding_def Let_def q_def r_def .
qed

lemma messageLengthWithPadding_dvd: "160 dvd messageLengthWithPadding n"
  by (simp add: messageLengthWithPadding_def Let_def)

lemma messageLengthWithPadding_least:
  assumes "160 dvd m" and "n + 1 \<le> m"
  shows "messageLengthWithPadding n \<le> m"
proof -
  from assms(1) obtain k where k: "m = 160 * k" by (auto simp: dvd_def)
  show ?thesis
  proof (cases "(n + 1) mod 160 = 0")
    case True
    then have "messageLengthWithPadding n = n + 1"
      by (simp add: messageLengthWithPadding_def Let_def mod_eq_0_iff_dvd)
    with assms(2) show ?thesis by simp
  next
    case False
    then have eq: "messageLengthWithPadding n = ((n + 1) div 160 + 1) * 160"
      by (simp add: messageLengthWithPadding_def Let_def)
    have "(n + 1) div 160 \<le> k" using assms(2) k by simp
    moreover have "(n + 1) div 160 \<noteq> k"
    proof
      assume "(n + 1) div 160 = k"
      then have "m \<le> n + 1" using k by simp
      with assms(2) have "n + 1 = 160 * k" using k by simp
      with False show False by simp
    qed
    ultimately have "(n + 1) div 160 + 1 \<le> k" by simp
    then show ?thesis using eq k by simp
  qed
qed

lemma addPadding_v3:
  assumes "\<not> version < 2" and "version \<noteq> 2"
  shows "addPadding version contents =
           Inr (zeroFrom ((contents @ replicate (messageLengthWithPadding (length contents)
                  - length contents) 0)[length contents := 0x80]) (length contents + 1))"
proof -
  let ?n = "length contents"
  have lt: "?n < messageLengthWithPadding ?n" by (rule messageLengthWithPadding_gt)
  have cp: "copyPrefix (replicate (messageLengthWithPadding ?n) 0) ?n contents =
              Inr (contents @ replicate (messageLengthWithPadding ?n - ?n) 0)"
    using lt by (simp add: copyPrefix_def)
  show ?thesis
    using assms lt by (simp add: addPadding_def Let_def cp padBlock_def)
qed

lemma word32_ge3: "(3 :: 32 word) \<le> v \<Longrightarrow> \<not> v < 2 \<and> v \<noteq> 2"
  by (auto simp: word_le_nat_alt word_less_nat_alt)


subsection \<open>Claims about the padding codec\<close>

text \<open>
  Claim C2.  For every plaintext byte string: padding with a version below 2 fails (with
  the unknown-version error); padding with version 2 returns the input unchanged; padding
  with a version of 3 or more returns a buffer whose length is a positive multiple of 160
  and at least \<open>len(input) + 1\<close>, whose first \<open>len(input)\<close> bytes are the input,
  whose byte at index \<open>len(input)\<close> is \<open>0x80\<close> and whose later bytes are all zero.
\<close>

theorem addPadding_contract:
  "(version < 2 \<longrightarrow> addPadding version contents = Inl (UnknownVersion version)) \<and>
   (version = 2 \<longrightarrow> addPadding version contents = Inr contents) \<and>
   (3 \<le> version \<longrightarrow>
      (\<exists>out. addPadding version contents = Inr out \<and>
         0 < length out \<and> 160 dvd length out \<and> length contents + 1 \<le> length out \<and>
         take (length contents) out = contents \<and>
         out ! length contents = 0x80 \<and>
         (\<forall>i. length contents < i \<and> i < length out \<longrightarrow> out ! i = 0)))"
proof (intro conjI impI)
  assume "version < 2"
  then show "addPadding version contents = Inl (UnknownVersion version)"
    by (simp add: addPadding_def)
next
  assume "version = 2"
  then show "addPadding version contents = Inr contents"
    by (simp add: addPadding_def)
next
  assume "3 \<le> version"
  then have v: "\<not> version < 2" "version \<noteq> 2" using word32_ge3 by blast+
  let ?n = "length contents"
  let ?L = "messageLengthWithPadding ?n"
  let ?buf = "(contents @ replicate (?L - ?n) 0)[?n := 0x80]"
  let ?out = "zeroFrom ?buf (?n + 1)"
  have lt: "?n < ?L" by (rule messageLengthWithPadding_gt)
  have eq: "addPadding version contents = Inr ?out" by (rule addPadding_v3 [OF v])
  have len: "length ?out = ?L" using lt by (simp add: zeroFrom_length)
  have lenbuf: "length ?buf = ?L" using lt by simp
  have nth: "?out ! j = (if ?n + 1 \<le> j then 0 else ?buf ! j)" if "j < ?L" for j
    using that lenbuf by (simp add: zeroFrom_nth)
  have pre: "take ?n ?out = contents"
  proof (rule nth_equalityI)
    show "length (take ?n ?out) = length contents" using len lt by simp
  next
    fix i assume "i < length (take ?n ?out)"
    then have i: "i < ?n" by simp
    then have "?out ! i = ?buf ! i" using nth [of i] lt by simp
    also have "\<dots> = contents ! i" using i by (simp add: nth_append)
    finally show "take ?n ?out ! i = contents ! i" using i by simp
  qed
  have mark: "?out ! ?n = 0x80" using nth [OF lt] lt by simp
  have zeros: "\<forall>i. ?n < i \<and> i < length ?out \<longrightarrow> ?out ! i = 0"
    using nth len by simp
  have pos: "0 < length ?out" using len lt by simp
  have dvd: "160 dvd length ?out" using len messageLengthWithPadding_dvd by simp
  have ge: "?n + 1 \<le> length ?out" using len lt by simp
  show "\<exists>out. addPadding version contents = Inr out \<and>
         0 < length out \<and> 160 dvd length out \<and> length contents + 1 \<le> length out \<and>
         take (length contents) out = contents \<and>
         out ! length contents = 0x80 \<and>
         (\<forall>i. length contents < i \<and> i < length out \<longrightarrow> out ! i = 0)"
    by (rule exI [of _ ?out]) (intro conjI eq pos dvd ge pre mark zeros)
qed

theorem addPadding_contract_witness:
  "addPadding 1 [1, 2, 3] = Inl (UnknownVersion 1) \<and>
   addPadding 2 [1, 2, 3] = Inr [1, 2, 3] \<and>
   (\<exists>out. addPadding 3 [1, 2, 3] = Inr out \<and>
      0 < length out \<and> 160 dvd length out \<and> length [1, 2, 3 :: 8 word] + 1 \<le> length out \<and>
      take (length [1, 2, 3 :: 8 word]) out = [1, 2, 3] \<and>
      out ! length [1, 2, 3 :: 8 word] = 0x80 \<and>
      (\<forall>i. length [1, 2, 3 :: 8 word] < i \<and> i < length out \<longrightarrow> out ! i = 0))"
proof -
  have h1: "(1 :: 32 word) < 2" by simp
  have h3: "(3 :: 32 word) \<le> 3" by simp
  note c1 = addPadding_contract [of 1 "[1, 2, 3]", THEN conjunct1, THEN mp, OF h1]
  note c2 = addPadding_contract [of 2 "[1, 2, 3]", THEN conjunct2, THEN conjunct1, THEN mp, OF refl]
  note c3 = addPadding_contract [of 3 "[1, 2, 3]", THEN conjunct2, THEN conjunct2, THEN mp, OF h3]
  show ?thesis by (intro conjI c1 c2 c3)
qed

text \<open>
  Claim C10.  Padding with a version of 3 or more always succeeds.  The position of the
  terminator, \<open>len(plaintext)\<close>, is strictly below the length of the buffer, which is
  the least positive multiple of 160 that is at least \<open>len(plaintext) + 1\<close>; so the
  check \<open>pos >= len(*block)\<close> of \<open>padBlock\<close> never fires on this path and
  \<open>addPadding\<close> returns a buffer, not an error.
\<close>

theorem addPadding_v3_total:
  assumes "3 \<le> version"
  shows "length contents < messageLengthWithPadding (length contents) \<and>
         160 dvd messageLengthWithPadding (length contents) \<and>
         (\<forall>m. 160 dvd m \<and> length contents + 1 \<le> m \<longrightarrow>
              messageLengthWithPadding (length contents) \<le> m) \<and>
         (\<exists>buffer. copyPrefix (replicate (messageLengthWithPadding (length contents)) 0)
                      (length contents) contents = Inr buffer \<and>
                    length buffer = messageLengthWithPadding (length contents) \<and>
                    padBlock buffer (length contents) \<noteq> Inl PositionExceedsBlock) \<and>
         (\<exists>out. addPadding version contents = Inr out)"
proof -
  let ?n = "length contents"
  let ?L = "messageLengthWithPadding ?n"
  have lt: "?n < ?L" by (rule messageLengthWithPadding_gt)
  have least: "\<forall>m. 160 dvd m \<and> ?n + 1 \<le> m \<longrightarrow> ?L \<le> m"
    using messageLengthWithPadding_least by blast
  have cp: "copyPrefix (replicate ?L 0) ?n contents = Inr (contents @ replicate (?L - ?n) 0)"
    using lt by (simp add: copyPrefix_def)
  have pb: "padBlock (contents @ replicate (?L - ?n) 0) ?n \<noteq> Inl PositionExceedsBlock"
    using lt by (simp add: padBlock_def)
  have buf: "\<exists>buffer. copyPrefix (replicate ?L 0) ?n contents = Inr buffer \<and>
                    length buffer = ?L \<and> padBlock buffer ?n \<noteq> Inl PositionExceedsBlock"
    using cp pb lt by simp
  from assms have v: "\<not> version < 2" "version \<noteq> 2" using word32_ge3 by blast+
  have out: "\<exists>out. addPadding version contents = Inr out"
    using addPadding_v3 [OF v] by blast
  show ?thesis
    by (intro conjI lt messageLengthWithPadding_dvd least buf out)
qed

theorem addPadding_v3_total_witness:
  "length [7 :: 8 word, 9] < messageLengthWithPadding (length [7 :: 8 word, 9]) \<and>
   (\<exists>out. addPadding 3 [7, 9] = Inr out)"
proof -
  have h3: "(3 :: 32 word) \<le> 3" by simp
  note t = addPadding_v3_total [of 3 "[7, 9]", OF h3]
  from t have a: "length [7 :: 8 word, 9] < messageLengthWithPadding (length [7 :: 8 word, 9])"
    by (rule conjunct1)
  from t have b: "\<exists>out. addPadding 3 [7, 9] = Inr out"
    by (elim conjE)
  show ?thesis by (intro conjI a b)
qed

section \<open>The recorded calls\<close>

text \<open>What each function adds to the recorded calls.\<close>

lemma ProfileKeyForSignalID_calls [simp]:
  "st_calls (snd (ProfileKeyForSignalID env u s)) = st_calls s"
  by (simp add: ProfileKeyForSignalID_def case_prod_unfold)

lemma AllSessionsForUUID_calls [simp]:
  "st_calls (snd (AllSessionsForUUID env u s)) = st_calls s"
  by (simp add: AllSessionsForUUID_def case_prod_unfold)

lemma Encrypt_calls [simp]:
  "st_calls (snd (Encrypt env p a s)) = st_calls s"
  by (simp add: Encrypt_def case_prod_unfold)

lemma SealedSenderEncryptPlaintext_calls [simp]:
  "st_calls (snd (SealedSenderEncryptPlaintext env p a c s)) = st_calls s"
  by (simp add: SealedSenderEncryptPlaintext_def case_prod_unfold)

lemma SendHTTPRequest_calls [simp]:
  "st_calls (snd (SendHTTPRequest env s)) = st_calls s"
  by (simp add: SendHTTPRequest_def case_prod_unfold)

lemma RetrieveGroupByID_calls [simp]:
  "st_calls (snd (RetrieveGroupByID env g s)) = st_calls s"
  by (simp add: RetrieveGroupByID_def case_prod_unfold)

lemma FetchAndProcessPreKey_calls [simp]:
  "st_calls (FetchAndProcessPreKey env u d s) = st_calls s @ [FetchPreKeyCall u d]"
  by (simp add: FetchAndProcessPreKey_def)

lemma RemoveSession_calls [simp]:
  "st_calls (snd (RemoveSession env a s)) = st_calls s @ [RemoveSessionCall a]"
  by (simp add: RemoveSession_def case_prod_unfold)

lemma SendRequest_calls [simp]:
  "st_calls (snd (SendRequest env conn req s)) = st_calls s @ [SendRequestCall conn req]"
  by (simp add: SendRequest_def case_prod_unfold)

lemma senderCertificate_calls [simp]:
  "st_calls (snd (senderCertificate env s)) = st_calls s"
  by (simp add: senderCertificate_def case_prod_unfold split: option.splits sum.splits)

lemma buildAuthedMessageToSend_calls [simp]:
  "st_calls (snd (buildAuthedMessageToSend env a p s)) = st_calls s"
  by (simp add: buildAuthedMessageToSend_def Let_def case_prod_unfold
      split: option.splits sum.splits)

lemma buildSSMessageToSend_calls [simp]:
  "st_calls (snd (buildSSMessageToSend env a p s)) = st_calls s"
  by (simp add: buildSSMessageToSend_def case_prod_unfold split: option.splits)

lemma buildOneMessage_calls [simp]:
  "st_calls (snd (buildOneMessage env unauth a d rs i m s)) = st_calls s"
  by (simp add: buildOneMessage_def Let_def case_prod_unfold split: sum.splits)

lemma buildLoop_calls [simp]:
  "st_calls (snd (buildLoop env c unauth rs i as msgs s)) = st_calls s"
proof (induction as arbitrary: i msgs s)
  case Nil
  then show ?case by simp
next
  case (Cons a as)
  then show ?case
    by (simp add: case_prod_unfold split: sum.splits)
qed

lemma calls_extend_same: "st_calls s' = st_calls s \<Longrightarrow> calls_extend P s s'"
  by (simp add: calls_extend_def)

lemma calls_extend_trans:
  "calls_extend P s s1 \<Longrightarrow> calls_extend P s1 s2 \<Longrightarrow> calls_extend P s s2"
  by (auto simp: calls_extend_def)

lemma calls_extend_one: "st_calls s' = st_calls s @ [c] \<Longrightarrow> P c \<Longrightarrow> calls_extend P s s'"
  by (simp add: calls_extend_def)

lemma calls_extend_mono:
  "calls_extend P s s' \<Longrightarrow> (\<And>c. P c \<Longrightarrow> Q c) \<Longrightarrow> calls_extend Q s s'"
  by (auto simp: calls_extend_def list_all_iff)

lemma calls_extend_sends:
  "calls_extend (\<lambda>c. \<not> is_send c) s s' \<Longrightarrow> sends (st_calls s') = sends (st_calls s)"
  by (auto simp: calls_extend_def sends_def list_all_iff filter_empty_conv)

lemma fetchMissingDevices_quiet:
  "calls_extend (\<lambda>c. \<not> is_send c) s (snd (fetchMissingDevices env u ds s))"
proof (induction ds arbitrary: s)
  case Nil
  show ?case by (simp add: calls_extend_same)
next
  case (Cons d ds)
  show ?case
  proof (cases "assert_float64 d")
    case None
    then show ?thesis by (simp add: calls_extend_same)
  next
    case (Some n)
    have "calls_extend (\<lambda>c. \<not> is_send c) s (FetchAndProcessPreKey env u (float64_to_int n) s)"
      by (rule calls_extend_one [where c = "FetchPreKeyCall u (float64_to_int n)"]) simp_all
    from calls_extend_trans [OF this Cons.IH] show ?thesis using Some by simp
  qed
qed

lemma removeExtraDevices_quiet:
  "calls_extend (\<lambda>c. \<not> is_send c) s (snd (removeExtraDevices env u ds s))"
proof (induction ds arbitrary: s)
  case Nil
  show ?case by (simp add: calls_extend_same)
next
  case (Cons d ds)
  show ?case
  proof (cases "assert_float64 d")
    case None
    then show ?thesis by (simp add: calls_extend_same)
  next
    case (Some n)
    show ?thesis
    proof (cases "env_NewAddress env u (float64_to_uint n)")
      case (Inl e)
      then show ?thesis using Some by (simp add: calls_extend_same)
    next
      case (Inr a)
      let ?r = "RemoveSession env (Some a) s"
      have step: "calls_extend (\<lambda>c. \<not> is_send c) s (snd ?r)"
        by (rule calls_extend_one [where c = "RemoveSessionCall (Some a)"]) simp_all
      show ?thesis
      proof (cases "fst ?r")
        case None
        then have "removeExtraDevices env u (d # ds) s = removeExtraDevices env u ds (snd ?r)"
          using Some Inr by (simp add: case_prod_unfold)
        with calls_extend_trans [OF step Cons.IH] show ?thesis by simp
      next
        case (Some e)
        then have "snd (removeExtraDevices env u (d # ds) s) = snd ?r"
          using \<open>assert_float64 d = Some n\<close> Inr by (simp add: case_prod_unfold)
        with step show ?thesis by simp
      qed
    qed
  qed
qed

lemma refreshStaleDevices_quiet:
  "calls_extend (\<lambda>c. \<not> is_send c) s (snd (refreshStaleDevices env u ds s))"
proof (induction ds arbitrary: s)
  case Nil
  show ?case by (simp add: calls_extend_same)
next
  case (Cons d ds)
  show ?case
  proof (cases "assert_float64 d")
    case None
    then show ?thesis by (simp add: calls_extend_same)
  next
    case (Some n)
    define a where "a = (case env_NewAddress env u (float64_to_uint n) of
                           Inl e \<Rightarrow> None | Inr a \<Rightarrow> Some a)"
    let ?r = "RemoveSession env a s"
    have step: "calls_extend (\<lambda>c. \<not> is_send c) s (snd ?r)"
      by (rule calls_extend_one [where c = "RemoveSessionCall a"]) simp_all
    show ?thesis
    proof (cases "fst ?r")
      case None
      let ?s2 = "FetchAndProcessPreKey env u (float64_to_int n) (snd ?r)"
      have eq: "refreshStaleDevices env u (d # ds) s = refreshStaleDevices env u ds ?s2"
        using Some None by (simp add: case_prod_unfold a_def Let_def)
      have "calls_extend (\<lambda>c. \<not> is_send c) (snd ?r) ?s2"
        by (rule calls_extend_one [where c = "FetchPreKeyCall u (float64_to_int n)"]) simp_all
      from calls_extend_trans [OF calls_extend_trans [OF step this] Cons.IH]
      show ?thesis using eq by simp
    next
      case (Some e)
      then have "snd (refreshStaleDevices env u (d # ds) s) = snd ?r"
        using \<open>assert_float64 d = Some n\<close> by (simp add: case_prod_unfold a_def Let_def)
      with step show ?thesis by simp
    qed
  qed
qed

lemma handle409_quiet:
  "calls_extend (\<lambda>c. \<not> is_send c) s (snd (handle409 env u response s))"
proof -
  have same: "calls_extend (\<lambda>c. \<not> is_send c) t t" for t :: "'a state"
    by (simp add: calls_extend_same)
  show ?thesis
    unfolding handle409_def
    by (auto simp: case_prod_unfold same fetchMissingDevices_quiet removeExtraDevices_quiet
        split: sum.splits option.splits
        intro: calls_extend_trans [OF fetchMissingDevices_quiet removeExtraDevices_quiet])
qed

lemma handle410_quiet:
  "calls_extend (\<lambda>c. \<not> is_send c) s (snd (handle410 env u response s))"
  unfolding handle410_def
  by (auto simp: calls_extend_same refreshStaleDevices_quiet split: sum.splits option.splits)

lemma handle428_quiet:
  "calls_extend (\<lambda>c. \<not> is_send c) s (snd (handle428 env u response s))"
  unfolding handle428_def
  by (auto simp: calls_extend_same split: sum.splits)

lemma sendContent_repair_quiet:
  "calls_extend (\<lambda>c. \<not> is_send c) s (snd (sendContent_repair env u response s))"
  by (simp add: sendContent_repair_def handle409_quiet handle410_quiet handle428_quiet
      calls_extend_same)

lemma resolveSessions_quiet:
  "calls_extend (\<lambda>c. \<not> is_send c) s (snd (resolveSessions env u s))"
proof -
  let ?s1 = "snd (AllSessionsForUUID env u s)"
  have "calls_extend (\<lambda>c. \<not> is_send c) s (FetchAndProcessPreKey env u (- 1) ?s1)"
    by (rule calls_extend_one [where c = "FetchPreKeyCall u (- 1)"]) simp_all
  then have "calls_extend (\<lambda>c. \<not> is_send c) s
               (snd (AllSessionsForUUID env u (FetchAndProcessPreKey env u (- 1) ?s1)))"
    by (rule calls_extend_trans) (simp add: calls_extend_same)
  then show ?thesis
    by (simp add: resolveSessions_def case_prod_unfold calls_extend_same)
qed

lemma buildMessagesToSend_quiet:
  "calls_extend (\<lambda>c. \<not> is_send c) s (snd (buildMessagesToSend env u c unauth s))"
proof -
  let ?r = "resolveSessions env u s"
  have "st_calls (snd (buildMessagesToSend env u c unauth s)) = st_calls (snd ?r)"
    by (simp add: buildMessagesToSend_def case_prod_unfold split: option.splits)
  then have "calls_extend (\<lambda>c. \<not> is_send c) (snd ?r) (snd (buildMessagesToSend env u c unauth s))"
    by (rule calls_extend_same)
  with resolveSessions_quiet show ?thesis by (rule calls_extend_trans)
qed

lemma entry_fields_marshal [simp]:
  "entry_fields (marshal_MyMessage m) =
     Some (msg_Type m, msg_DestinationDeviceID m, msg_DestinationRegistrationID m, msg_Content m)"
  by (simp add: marshal_MyMessage_def)

lemma body_fields_Marshal:
  "json_Marshal ms = Inr b \<Longrightarrow>
     body_fields b = Some (msgs_Timestamp ms, msgs_Online ms, msgs_Urgent ms,
                           map marshal_MyMessage (msgs_Messages ms))"
  by (auto simp: json_Marshal_def)

lemma buildOneMessage_content:
  "fst (buildOneMessage env unauth a d rs i m s) = Inr msg \<Longrightarrow>
     \<exists>payload. msg_Content msg = env_Base64Encode env payload"
  by (auto simp: buildOneMessage_def Let_def case_prod_unfold split: sum.splits if_splits)

lemma buildLoop_content:
  "list_all (\<lambda>m. \<exists>payload. msg_Content m = env_Base64Encode env payload) msgs \<Longrightarrow>
   list_all (\<lambda>m. \<exists>payload. msg_Content m = env_Base64Encode env payload)
     (fst (fst (buildLoop env c unauth rs i as msgs s)))"
proof (induction as arbitrary: i msgs s)
  case Nil
  then show ?case by simp
next
  case (Cons a as)
  show ?case
  proof (cases "addr_DeviceID a")
    case (Inl e)
    then show ?thesis by simp
  next
    case (Inr d)
    show ?thesis
    proof (cases "env_Marshal env c")
      case (Inl e)
      then show ?thesis using Inr by simp
    next
      case m: (Inr m)
      let ?one = "buildOneMessage env unauth a d rs i m s"
      show ?thesis
      proof (cases "fst ?one")
        case (Inl e)
        then show ?thesis using Inr m by (simp add: case_prod_unfold)
      next
        case one: (Inr msg)
        from buildOneMessage_content [OF one] Cons.prems
        have "list_all (\<lambda>m. \<exists>payload. msg_Content m = env_Base64Encode env payload)
                (msgs @ [msg])" by simp
        from Cons.IH [OF this] show ?thesis using Inr m one by (simp add: case_prod_unfold)
      qed
    qed
  qed
qed

lemma buildMessagesToSend_content:
  "list_all (\<lambda>m. \<exists>payload. msg_Content m = env_Base64Encode env payload)
     (fst (fst (buildMessagesToSend env u c unauth s)))"
  by (simp add: buildMessagesToSend_def case_prod_unfold buildLoop_content split: option.splits)

lemma wire_ok_quiet: "\<not> is_send c \<Longrightarrow> wire_ok env u ts c"
  by (cases c) (simp_all add: wire_ok_def)

lemma calls_extend_quiet_wire:
  "calls_extend (\<lambda>c. \<not> is_send c) s s' \<Longrightarrow> calls_extend (wire_ok env u ts) s s'"
  by (erule calls_extend_mono) (rule wire_ok_quiet)

lemma wire_ok_request:
  assumes "list_all (\<lambda>m. \<exists>payload. msg_Content m = env_Base64Encode env payload) msgs"
    and "json_Marshal \<lparr>msgs_Timestamp = sint ts, msgs_Online = False, msgs_Urgent = True,
            msgs_Messages = msgs\<rparr> = Inr b"
    and "case conn of
           UnauthedWS \<Rightarrow> \<exists>pk key. env_DeriveAccessKey env pk = (Some key, None) \<and>
                           hs = [''unidentified-access-key:'' @ env_Base64Encode env key]
         | AuthedWS \<Rightarrow> hs = []"
  shows "wire_ok env u ts (SendRequestCall conn
           ((CreateWSRequest ''PUT'' (''/v1/messages/'' @ u) b)\<lparr>req_Headers := hs\<rparr>))"
proof -
  have entries: "list_all (\<lambda>e. \<exists>t d r payload.
                   entry_fields e = Some (t, d, r, env_Base64Encode env payload))
                   (map marshal_MyMessage msgs)"
    using assms(1) by (induction msgs) auto
  from body_fields_Marshal [OF assms(2)]
  have "body_fields b = Some (sint ts, False, True, map marshal_MyMessage msgs)" by simp
  with entries assms(3) show ?thesis
    by (auto simp: wire_ok_def CreateWSRequest_def split: connection.splits)
qed

lemma sealedSenderSelector_calls [simp]:
  "st_calls (snd (sealedSenderSelector env u s)) = st_calls s"
  by (simp add: sealedSenderSelector_def Let_def case_prod_unfold)

text \<open>A sealed send has an access key that \<open>DeriveAccessKey\<close> returned without error.\<close>

lemma sealedSenderSelector_key:
  assumes "fst (sealedSenderSelector env u s) = (True, ak)"
  shows "\<exists>pk. env_DeriveAccessKey env pk = (ak, None)"
proof -
  let ?pk = "fst (fst (ProfileKeyForSignalID env u s))"
  from assms have "fst (env_DeriveAccessKey env ?pk) = ak \<and> snd (env_DeriveAccessKey env ?pk) = None"
    by (simp add: sealedSenderSelector_def Let_def case_prod_unfold split: if_splits)
  then have "env_DeriveAccessKey env ?pk = (ak, None)" by (simp add: prod_eq_iff)
  then show ?thesis ..
qed

lemma dispatchMessages_state:
  assumes content: "list_all (\<lambda>m. \<exists>payload. msg_Content m = env_Base64Encode env payload) msgs"
    and key: "unid \<Longrightarrow> \<exists>pk. env_DeriveAccessKey env pk = (ak, None)"
  shows "snd (dispatchMessages env u ts unid ak msgs s) = s \<or>
         (\<exists>conn req. snd (dispatchMessages env u ts unid ak msgs s) = snd (SendRequest env conn req s) \<and>
            wire_ok env u ts (SendRequestCall conn req))"
proof (cases "json_Marshal \<lparr>msgs_Timestamp = sint ts, msgs_Online = False, msgs_Urgent = True,
            msgs_Messages = msgs\<rparr>")
  case (Inl e)
  then show ?thesis by (simp add: dispatchMessages_def)
next
  case (Inr jsonBytes)
  let ?plain = "CreateWSRequest ''PUT'' (''/v1/messages/'' @ u) jsonBytes"
  show ?thesis
  proof (cases unid)
    case False
    have "wire_ok env u ts (SendRequestCall AuthedWS (?plain\<lparr>req_Headers := []\<rparr>))"
      by (rule wire_ok_request [OF content Inr]) simp
    then have ok: "wire_ok env u ts (SendRequestCall AuthedWS ?plain)"
      by (simp add: CreateWSRequest_def)
    have "snd (dispatchMessages env u ts unid ak msgs s) = snd (SendRequest env AuthedWS ?plain s)"
      using Inr False by (simp add: dispatchMessages_def Let_def case_prod_unfold split: sum.splits)
    with ok show ?thesis by blast
  next
    case True
    show ?thesis
    proof (cases ak)
      case None
      then show ?thesis using Inr True by (simp add: dispatchMessages_def Let_def)
    next
      case (Some k)
      let ?req = "?plain\<lparr>req_Headers := [''unidentified-access-key:'' @ env_Base64Encode env k]\<rparr>"
      from key [OF True] Some obtain pk where "env_DeriveAccessKey env pk = (Some k, None)" by auto
      then have ok: "wire_ok env u ts (SendRequestCall UnauthedWS ?req)"
        by (intro wire_ok_request [OF content Inr]) auto
      have "snd (dispatchMessages env u ts unid ak msgs s) = snd (SendRequest env UnauthedWS ?req s)"
        using Inr True Some
        by (simp add: dispatchMessages_def Let_def case_prod_unfold CreateWSRequest_def split: sum.splits)
      with ok show ?thesis by blast
    qed
  qed
qed

lemma sendContent_dispatch_state:
  "\<exists>sb. calls_extend (\<lambda>c. \<not> is_send c) s sb \<and>
         (snd (sendContent_dispatch env u ts c s) = sb \<or>
          (\<exists>conn req. snd (sendContent_dispatch env u ts c s) = snd (SendRequest env conn req sb) \<and>
             wire_ok env u ts (SendRequestCall conn req)))"
proof -
  let ?sel = "sealedSenderSelector env u s"
  let ?unid = "fst (fst ?sel)"
  let ?ak = "snd (fst ?sel)"
  let ?b = "buildMessagesToSend env u c ?unid (snd ?sel)"
  have "calls_extend (\<lambda>c. \<not> is_send c) s (snd ?sel)"
    by (simp add: calls_extend_same)
  then have ext: "calls_extend (\<lambda>c. \<not> is_send c) s (snd ?b)"
    using buildMessagesToSend_quiet by (rule calls_extend_trans)
  show ?thesis
  proof (cases "snd (fst ?b)")
    case (Some e)
    then have "snd (sendContent_dispatch env u ts c s) = snd ?b"
      by (simp add: sendContent_dispatch_def case_prod_unfold)
    with ext show ?thesis by blast
  next
    case None
    then have eq: "sendContent_dispatch env u ts c s =
                 dispatchMessages env u ts ?unid ?ak (fst (fst ?b)) (snd ?b)"
      by (simp add: sendContent_dispatch_def case_prod_unfold)
    have key: "?unid \<Longrightarrow> \<exists>pk. env_DeriveAccessKey env pk = (?ak, None)"
      by (rule sealedSenderSelector_key) (simp add: prod_eq_iff)
    from dispatchMessages_state [OF buildMessagesToSend_content key,
        where u = u and ts = ts and s = "snd ?b"]
    show ?thesis using ext unfolding eq by blast
  qed
qed

lemma sendContent_dispatch_wire:
  "calls_extend (wire_ok env u ts) s (snd (sendContent_dispatch env u ts c s))"
proof -
  from sendContent_dispatch_state [of s env u ts c]
  obtain sb where ext: "calls_extend (\<lambda>c. \<not> is_send c) s sb"
    and alt: "snd (sendContent_dispatch env u ts c s) = sb \<or>
          (\<exists>conn req. snd (sendContent_dispatch env u ts c s) = snd (SendRequest env conn req sb) \<and>
             wire_ok env u ts (SendRequestCall conn req))" by blast
  from ext have w: "calls_extend (wire_ok env u ts) s sb" by (rule calls_extend_quiet_wire)
  from alt show ?thesis
  proof
    assume "snd (sendContent_dispatch env u ts c s) = sb"
    with w show ?thesis by simp
  next
    assume "\<exists>conn req. snd (sendContent_dispatch env u ts c s) = snd (SendRequest env conn req sb) \<and>
             wire_ok env u ts (SendRequestCall conn req)"
    then obtain conn req where eq: "snd (sendContent_dispatch env u ts c s) = snd (SendRequest env conn req sb)"
      and ok: "wire_ok env u ts (SendRequestCall conn req)" by blast
    have "calls_extend (wire_ok env u ts) sb (snd (SendRequest env conn req sb))"
      by (rule calls_extend_one [where c = "SendRequestCall conn req"]) (simp_all add: ok)
    with w show ?thesis unfolding eq by (rule calls_extend_trans)
  qed
qed

lemma sendContent_dispatch_sends:
  "sends (st_calls (snd (sendContent_dispatch env u ts c s))) \<le> sends (st_calls s) + 1"
proof -
  from sendContent_dispatch_state [of s env u ts c]
  obtain sb where ext: "calls_extend (\<lambda>c. \<not> is_send c) s sb"
    and alt: "snd (sendContent_dispatch env u ts c s) = sb \<or>
          (\<exists>conn req. snd (sendContent_dispatch env u ts c s) = snd (SendRequest env conn req sb) \<and>
             wire_ok env u ts (SendRequestCall conn req))" by blast
  from calls_extend_sends [OF ext] alt show ?thesis
    by (auto simp: sends_def)
qed

section \<open>The steps of \<open>sendContent\<close>\<close>

lemma sendContent_exhausted:
  "3 < n \<Longrightarrow> sendContent env u ts c n s = ((False, Some TooManyRetries), s)"
  by (subst sendContent.simps) simp

lemma sendContent_error:
  assumes "\<not> 3 < n" and "sendContent_dispatch env u ts c s = ((flag, Inl e), s1)"
  shows "sendContent env u ts c n s = ((flag, Some e), s1)"
  using assms by (subst sendContent.simps) simp

lemma sendContent_final:
  assumes "\<not> 3 < n" and "sendContent_dispatch env u ts c s = ((flag, Inr response), s1)"
    and "resp_Status response \<notin> set retryableStatuses"
  shows "sendContent env u ts c n s =
           ((flag, if resp_Status response \<noteq> 200
                   then Some (UnexpectedStatus (resp_Status response)) else None), s1)"
  using assms by (subst sendContent.simps) simp

lemma sendContent_repair_failed:
  assumes "\<not> 3 < n" and "sendContent_dispatch env u ts c s = ((flag, Inr response), s1)"
    and "resp_Status response \<in> set retryableStatuses"
    and "sendContent_repair env u response s1 = (Some e, s2)"
  shows "sendContent env u ts c n s = ((False, Some e), s2)"
  using assms by (subst sendContent.simps) simp

lemma sendContent_retry:
  assumes "\<not> 3 < n" and "sendContent_dispatch env u ts c s = ((flag, Inr response), s1)"
    and "resp_Status response \<in> set retryableStatuses"
    and "sendContent_repair env u response s1 = (None, s2)"
  shows "sendContent env u ts c n s = sendContent env u ts c (n + 1) s2"
  using assms by (subst sendContent.simps) simp

lemma sends_append [simp]: "sends (xs @ ys) = sends xs + sends ys"
  by (simp add: sends_def)

lemma sends_quiet: "list_all (\<lambda>c. \<not> is_send c) ext \<Longrightarrow> sends ext = 0"
  by (simp add: sends_def list_all_iff filter_empty_conv)

lemma sendContent_dispatch_ext:
  "\<exists>ext. st_calls (snd (sendContent_dispatch env u ts c s)) = st_calls s @ ext \<and>
         list_all (wire_ok env u ts) ext \<and> sends ext \<le> 1"
proof -
  from sendContent_dispatch_wire [of env u ts s c]
  obtain ext where ext: "st_calls (snd (sendContent_dispatch env u ts c s)) = st_calls s @ ext"
    and ok: "list_all (wire_ok env u ts) ext"
    by (auto simp: calls_extend_def)
  from sendContent_dispatch_sends [of env u ts c s] ext have "sends ext \<le> 1" by simp
  with ext ok show ?thesis by blast
qed

lemma sendContent_repair_ext:
  "\<exists>ext. st_calls (snd (sendContent_repair env u response s)) = st_calls s @ ext \<and>
         list_all (wire_ok env u ts) ext \<and> sends ext = 0"
proof -
  from sendContent_repair_quiet [of s env u response]
  obtain ext where ext: "st_calls (snd (sendContent_repair env u response s)) = st_calls s @ ext"
    and q: "list_all (\<lambda>c. \<not> is_send c) ext"
    by (auto simp: calls_extend_def)
  from q have "list_all (wire_ok env u ts) ext"
    by (auto simp: list_all_iff wire_ok_quiet)
  with ext sends_quiet [OF q] show ?thesis by blast
qed

text \<open>Every call recorded during \<open>sendContent\<close> is well formed, and at most
  \<open>4 - retryCount\<close> of them are submissions.\<close>

lemma sendContent_ext:
  "\<exists>ext. st_calls (snd (sendContent env u ts c n s)) = st_calls s @ ext \<and>
         list_all (wire_ok env u ts) ext \<and> sends ext \<le> nat (4 - n)"
proof (induction env u ts c n s rule: sendContent.induct)
  case (1 env u ts c n s)
  show ?case
  proof (cases "3 < n")
    case True
    then show ?thesis by (simp add: sendContent_exhausted sends_def)
  next
    case False
    let ?d = "sendContent_dispatch env u ts c s"
    obtain flag res s1 where d: "?d = ((flag, res), s1)" by (metis prod.exhaust)
    from sendContent_dispatch_ext [of env u ts c s] d
    obtain ext1 where ext1: "st_calls s1 = st_calls s @ ext1"
      and ok1: "list_all (wire_ok env u ts) ext1" and n1: "sends ext1 \<le> 1" by auto
    from False n1 have bound1: "sends ext1 \<le> nat (4 - n)" by simp
    show ?thesis
    proof (cases res)
      case (Inl e)
      from sendContent_error [OF False d [unfolded Inl]] ext1 ok1 bound1 show ?thesis by simp
    next
      case (Inr response)
      note d' = d [unfolded Inr]
      show ?thesis
      proof (cases "resp_Status response \<in> set retryableStatuses")
        case notretry: False
        from sendContent_final [OF False d' notretry] ext1 ok1 bound1 show ?thesis by simp
      next
        case True
        obtain rerr s2 where r: "sendContent_repair env u response s1 = (rerr, s2)"
          by (metis prod.exhaust)
        from sendContent_repair_ext [of env u response s1 ts] r
        obtain ext2 where ext2: "st_calls s2 = st_calls s1 @ ext2"
          and ok2: "list_all (wire_ok env u ts) ext2" and n2: "sends ext2 = 0" by auto
        show ?thesis
        proof (cases rerr)
          case (Some e)
          from sendContent_repair_failed [OF False d' True r [unfolded Some]]
          have "st_calls (snd (sendContent env u ts c n s)) = st_calls s @ (ext1 @ ext2)"
            using ext1 ext2 by simp
          moreover have "list_all (wire_ok env u ts) (ext1 @ ext2)" using ok1 ok2 by simp
          moreover have "sends (ext1 @ ext2) \<le> nat (4 - n)" using bound1 n2 by simp
          ultimately show ?thesis by blast
        next
          case None
          note r' = r [unfolded None]
          from "1.IH" [OF False d [symmetric] refl Inr True r [symmetric] None]
          obtain ext3 where ext3: "st_calls (snd (sendContent env u ts c (n + 1) s2)) = st_calls s2 @ ext3"
            and ok3: "list_all (wire_ok env u ts) ext3" and n3: "sends ext3 \<le> nat (4 - (n + 1))"
            by blast
          from sendContent_retry [OF False d' True r']
          have "st_calls (snd (sendContent env u ts c n s)) = st_calls s @ (ext1 @ ext2 @ ext3)"
            using ext1 ext2 ext3 by simp
          moreover have "list_all (wire_ok env u ts) (ext1 @ ext2 @ ext3)"
            using ok1 ok2 ok3 by simp
          moreover have "sends (ext1 @ ext2 @ ext3) \<le> nat (4 - n)"
            using n1 n2 n3 False by simp
          ultimately show ?thesis by blast
        qed
      qed
    qed
  qed
qed

section \<open>Claims about the retry bound and the wire format\<close>

text \<open>
  Claim C1.  The retry depth of a send never exceeds 3.  A call of \<open>sendContent\<close>
  entered with a depth above 3 returns the "too many retries" failure at once: the state
  is unchanged, so nothing is dispatched and no status is read.  And whatever statuses
  the server answers, a call entered at depth \<open>retryCount\<close> submits at most
  \<open>4 - retryCount\<close> requests, so a send started at depth 0 makes at most 4 attempts (the
  first and three retries).  \<open>sendContent\<close> is a total function: the recursion
  terminates.
\<close>

theorem sendContent_retry_bound:
  "(3 < retryCount \<longrightarrow>
      sendContent env recipientUuid messageTimestamp content retryCount s =
        ((False, Some TooManyRetries), s)) \<and>
   sends (st_calls (snd (sendContent env recipientUuid messageTimestamp content retryCount s)))
     \<le> sends (st_calls s) + nat (4 - retryCount)"
proof
  show "3 < retryCount \<longrightarrow>
      sendContent env recipientUuid messageTimestamp content retryCount s =
        ((False, Some TooManyRetries), s)"
    by (simp add: sendContent_exhausted)
next
  from sendContent_ext [of env recipientUuid messageTimestamp content retryCount s]
  obtain ext where
    "st_calls (snd (sendContent env recipientUuid messageTimestamp content retryCount s)) =
       st_calls s @ ext" and "sends ext \<le> nat (4 - retryCount)"
    by blast
  then show "sends (st_calls (snd (sendContent env recipientUuid messageTimestamp content
                 retryCount s))) \<le> sends (st_calls s) + nat (4 - retryCount)"
    by simp
qed

text \<open>A server that answers 503 to everything: the send started at depth 0 submits
  exactly four requests and fails; a call entered at depth 4 submits none.\<close>

theorem sendContent_retry_bound_witness:
  "sendContent (demo_env None 3) ''bob'' 1700000000000 demo_content 4
       (demo_state (replicate 5 (response_of 503 None))) =
     ((False, Some TooManyRetries), demo_state (replicate 5 (response_of 503 None))) \<and>
   sends (st_calls (snd (sendContent (demo_env None 3) ''bob'' 1700000000000 demo_content 0
       (demo_state (replicate 5 (response_of 503 None)))))) \<le> 4 \<and>
   sends (st_calls (snd (sendContent (demo_env None 3) ''bob'' 1700000000000 demo_content 0
       (demo_state (replicate 5 (response_of 503 None)))))) = 4 \<and>
   fst (sendContent (demo_env None 3) ''bob'' 1700000000000 demo_content 0
       (demo_state (replicate 5 (response_of 503 None)))) = (False, Some TooManyRetries)"
proof -
  let ?env = "demo_env None 3"
  let ?s = "demo_state (replicate 5 (response_of 503 None))"
  have four: "(3 :: int) < 4" by simp
  note deep = sendContent_retry_bound [of 4 ?env "''bob''" 1700000000000 demo_content ?s,
      THEN conjunct1, THEN mp, OF four]
  have start: "sends (st_calls ?s) = 0" by (simp add: demo_state_def sends_def)
  from sendContent_retry_bound [of 0 ?env "''bob''" 1700000000000 demo_content ?s, THEN conjunct2]
  have le: "sends (st_calls (snd (sendContent ?env ''bob'' 1700000000000 demo_content 0 ?s))) \<le> 4"
    unfolding start by simp
  have eq: "sends (st_calls (snd (sendContent ?env ''bob'' 1700000000000 demo_content 0 ?s))) = 4"
    by code_simp
  have res: "fst (sendContent ?env ''bob'' 1700000000000 demo_content 0 ?s) =
               (False, Some TooManyRetries)"
    by code_simp
  show ?thesis by (intro conjI deep le eq res)
qed

text \<open>
  Claim C9.  Every request submitted during a send is a \<open>PUT\<close> to
  \<open>/v1/messages/{recipientUuid}\<close>; its body has the timestamp of the send,
  \<open>online = false\<close>, \<open>urgent = true\<close> and a list \<open>messages\<close> whose entries carry
  the numbers \<open>type\<close>, \<open>destinationDeviceId\<close>, \<open>destinationRegistrationId\<close> and
  a base64 text \<open>content\<close>.  A request on the unauthenticated socket (a sealed send)
  has the single header \<open>unidentified-access-key:\<close> with the base64 text of an access
  key; a request on the authenticated socket has no header.
\<close>

theorem sendContent_wire_contract:
  "\<exists>ext. st_calls (snd (sendContent env recipientUuid messageTimestamp content retryCount s)) =
           st_calls s @ ext \<and>
     (\<forall>conn request. SendRequestCall conn request \<in> set ext \<longrightarrow>
        req_Verb request = ''PUT'' \<and>
        req_Path request = ''/v1/messages/'' @ recipientUuid \<and>
        (\<exists>entries.
           body_fields (req_Body request) = Some (sint messageTimestamp, False, True, entries) \<and>
           (\<forall>e \<in> set entries. \<exists>t d r payload.
               entry_fields e = Some (t, d, r, env_Base64Encode env payload))) \<and>
        (conn = UnauthedWS \<longrightarrow>
           (\<exists>pk key. env_DeriveAccessKey env pk = (Some key, None) \<and>
              req_Headers request = [''unidentified-access-key:'' @ env_Base64Encode env key])) \<and>
        (conn = AuthedWS \<longrightarrow> req_Headers request = []))"
proof -
  from sendContent_ext [of env recipientUuid messageTimestamp content retryCount s]
  obtain ext where
    ext: "st_calls (snd (sendContent env recipientUuid messageTimestamp content retryCount s)) =
            st_calls s @ ext"
    and ok: "list_all (wire_ok env recipientUuid messageTimestamp) ext"
    by blast
  have "req_Verb request = ''PUT'' \<and>
        req_Path request = ''/v1/messages/'' @ recipientUuid \<and>
        (\<exists>entries.
           body_fields (req_Body request) = Some (sint messageTimestamp, False, True, entries) \<and>
           (\<forall>e \<in> set entries. \<exists>t d r payload.
               entry_fields e = Some (t, d, r, env_Base64Encode env payload))) \<and>
        (conn = UnauthedWS \<longrightarrow>
           (\<exists>pk key. env_DeriveAccessKey env pk = (Some key, None) \<and>
              req_Headers request = [''unidentified-access-key:'' @ env_Base64Encode env key])) \<and>
        (conn = AuthedWS \<longrightarrow> req_Headers request = [])"
    if "SendRequestCall conn request \<in> set ext" for conn request
  proof -
    from ok that have "wire_ok env recipientUuid messageTimestamp (SendRequestCall conn request)"
      by (simp add: list_all_iff)
    then show ?thesis
      by (cases conn) (auto simp: wire_ok_def list_all_iff)
  qed
  with ext show ?thesis by blast
qed


text \<open>A sealed send to a recipient whose profile key is known, answered 200: one request,
  on the unauthenticated socket, with the access-key header.\<close>

theorem sendContent_wire_contract_witness:
  "\<exists>request.
     st_calls (snd (sendContent (demo_env (Some [51, 1]) 3) ''bob'' 1700000000000 demo_content 0
                 (demo_state []))) = [SendRequestCall UnauthedWS request] \<and>
     req_Verb request = ''PUT'' \<and>
     req_Path request = ''/v1/messages/bob'' \<and>
     (\<exists>entries. body_fields (req_Body request) = Some (1700000000000, False, True, entries) \<and>
        length entries = 1) \<and>
     req_Headers request = [''unidentified-access-key:MwE='']"
proof -
  let ?env = "demo_env (Some [51, 1]) 3"
  let ?request = "\<lparr>req_Verb = ''PUT'', req_Path = ''/v1/messages/bob'',
      req_Body = JObject
        [(''timestamp'', JNumber 1700000000000), (''online'', JBool False),
         (''urgent'', JBool True),
         (''messages'', JArray
            [JObject [(''type'', JNumber 6), (''destinationDeviceId'', JNumber 2),
                      (''destinationRegistrationId'', JNumber 77),
                      (''content'', JString ''MwE='')]])],
      req_Headers = [''unidentified-access-key:MwE='']\<rparr>"
  have run: "st_calls (snd (sendContent ?env ''bob'' 1700000000000 demo_content 0 (demo_state [])))
               = [SendRequestCall UnauthedWS ?request]"
    by code_simp
  from sendContent_wire_contract [of ?env "''bob''" 1700000000000 demo_content 0 "demo_state []"]
  obtain ext where
    ext: "st_calls (snd (sendContent ?env ''bob'' 1700000000000 demo_content 0 (demo_state [])))
            = st_calls (demo_state []) @ ext"
    and ok: "\<forall>conn request. SendRequestCall conn request \<in> set ext \<longrightarrow>
        req_Verb request = ''PUT'' \<and>
        req_Path request = ''/v1/messages/'' @ ''bob'' \<and>
        (\<exists>entries.
           body_fields (req_Body request) = Some (sint (1700000000000 :: u64), False, True, entries) \<and>
           (\<forall>e \<in> set entries. \<exists>t d r payload.
               entry_fields e = Some (t, d, r, env_Base64Encode ?env payload))) \<and>
        (conn = UnauthedWS \<longrightarrow>
           (\<exists>pk key. env_DeriveAccessKey ?env pk = (Some key, None) \<and>
              req_Headers request = [''unidentified-access-key:'' @ env_Base64Encode ?env key])) \<and>
        (conn = AuthedWS \<longrightarrow> req_Headers request = [])"
    by blast
  from ext run have "ext = [SendRequestCall UnauthedWS ?request]"
    by (simp add: demo_state_def)
  with ok have verb: "req_Verb ?request = ''PUT''" and path: "req_Path ?request = ''/v1/messages/'' @ ''bob''"
    by simp_all
  have body: "\<exists>entries. body_fields (req_Body ?request) = Some (1700000000000, False, True, entries) \<and>
        length entries = 1"
    by simp
  show ?thesis
    using run verb path body by (intro exI [of _ ?request]) simp
qed

section \<open>Errors of the selection are never returned\<close>

lemma from_selector_simps [simp]:
  "\<not> from_selector TooManyRetries"
  "\<not> from_selector (UnknownVersion v)"
  "\<not> from_selector PositionExceedsBlock"
  "\<not> from_selector (InvalidPadding e)"
  "\<not> from_selector NilSessions"
  "\<not> from_selector (MismatchedSessions a b)"
  "\<not> from_selector NoSessions"
  "\<not> from_selector (UnknownMessageType t)"
  "\<not> from_selector (UnexpectedStatus st)"
  "\<not> from_selector (HTTPError code)"
  "\<not> from_selector (RuntimePanic p)"
  "from_selector (External origin m) = (origin = FromProfileKey \<or> origin = FromDeriveAccessKey)"
  by (simp_all add: from_selector_def)

lemma is_panic_not_selector: "is_panic (Some e) \<Longrightarrow> \<not> from_selector e"
  by (cases e) simp_all

lemma senderCertificate_origin:
  "snd (fst (senderCertificate env s)) = Some e \<Longrightarrow> \<not> from_selector e"
  by (auto simp: senderCertificate_def case_prod_unfold split: option.splits sum.splits if_splits)

lemma buildAuthedMessageToSend_origin:
  "snd (snd (fst (buildAuthedMessageToSend env a p s))) = Some e \<Longrightarrow> \<not> from_selector e"
  by (auto simp: buildAuthedMessageToSend_def Let_def case_prod_unfold
      split: option.splits sum.splits if_splits)

lemma buildSSMessageToSend_origin:
  "snd (snd (fst (buildSSMessageToSend env a p s))) = Some e \<Longrightarrow> \<not> from_selector e"
  by (auto simp: buildSSMessageToSend_def case_prod_unfold senderCertificate_origin
      split: option.splits)

lemma is_panic_the: "is_panic x \<Longrightarrow> \<not> from_selector (the x)"
  by (cases x) (simp_all add: is_panic_not_selector)

lemma buildOneMessage_origin:
  assumes "fst (buildOneMessage env unauth a d rs i m s) = Inl e"
  shows "\<not> from_selector e"
  using assms
  by (auto simp: buildOneMessage_def Let_def case_prod_unfold is_panic_not_selector is_panic_the
      split: sum.splits if_splits)

lemma buildLoop_origin:
  "snd (fst (buildLoop env c unauth rs i as msgs s)) = Some e \<Longrightarrow> \<not> from_selector e"
proof (induction as arbitrary: i msgs s)
  case Nil
  then show ?case by simp
next
  case (Cons a as)
  show ?case
  proof (cases "addr_DeviceID a")
    case (Inl x)
    with Cons.prems show ?thesis by auto
  next
    case (Inr d)
    show ?thesis
    proof (cases "env_Marshal env c")
      case (Inl x)
      with Cons.prems Inr show ?thesis by auto
    next
      case m: (Inr m)
      let ?one = "buildOneMessage env unauth a d rs i m s"
      show ?thesis
      proof (cases "fst ?one")
        case (Inl x)
        with Cons.prems Inr m have "e = x" by (simp add: case_prod_unfold)
        with buildOneMessage_origin [OF Inl] show ?thesis by simp
      next
        case one: (Inr msg)
        with Cons.prems Inr m
        have "snd (fst (buildLoop env c unauth rs (i + 1) as (msgs @ [msg]) (snd ?one))) = Some e"
          by (simp add: case_prod_unfold)
        then show ?thesis by (rule Cons.IH)
      qed
    qed
  qed
qed

lemma checkForErrorWithSessions_origin:
  "checkForErrorWithSessions (map_option (External FromSessionStore) err) as rs = Some e \<Longrightarrow>
     \<not> from_selector e"
  by (auto simp: checkForErrorWithSessions_def split: option.splits if_splits)

lemma buildMessagesToSend_origin:
  assumes "snd (fst (buildMessagesToSend env u c unauth s)) = Some e"
  shows "\<not> from_selector e"
proof -
  let ?r = "resolveSessions env u s"
  let ?chk = "checkForErrorWithSessions (map_option (External FromSessionStore) (snd (snd (fst ?r))))
                (fst (fst ?r)) (fst (snd (fst ?r)))"
  show ?thesis
  proof (cases ?chk)
    case (Some x)
    with assms have "e = x" by (simp add: buildMessagesToSend_def case_prod_unfold)
    with checkForErrorWithSessions_origin [OF Some] show ?thesis by simp
  next
    case None
    with assms show ?thesis
      by (simp add: buildMessagesToSend_def case_prod_unfold buildLoop_origin)
  qed
qed

lemma json_Unmarshal_origin: "json_Unmarshal b = Inl e \<Longrightarrow> \<not> from_selector e"
  by (auto simp: json_Unmarshal_def split: option.splits json.splits)

lemma fetchMissingDevices_origin:
  "fst (fetchMissingDevices env u ds s) = Some e \<Longrightarrow> \<not> from_selector e"
  by (induction ds arbitrary: s) (auto split: option.splits)

lemma removeExtraDevices_origin:
  "fst (removeExtraDevices env u ds s) = Some e \<Longrightarrow> \<not> from_selector e"
  by (induction ds arbitrary: s)
    (auto simp: case_prod_unfold split: option.splits sum.splits)

lemma refreshStaleDevices_origin:
  "fst (refreshStaleDevices env u ds s) = Some e \<Longrightarrow> \<not> from_selector e"
  by (induction ds arbitrary: s)
    (auto simp: case_prod_unfold Let_def split: option.splits sum.splits)

lemma handle409_origin:
  "fst (handle409 env u response s) = Some e \<Longrightarrow> \<not> from_selector e"
  by (auto simp: handle409_def case_prod_unfold json_Unmarshal_origin
      fetchMissingDevices_origin removeExtraDevices_origin
      split: sum.splits option.splits)

lemma handle410_origin:
  "fst (handle410 env u response s) = Some e \<Longrightarrow> \<not> from_selector e"
  by (auto simp: handle410_def json_Unmarshal_origin refreshStaleDevices_origin
      split: sum.splits option.splits)

lemma handle428_origin:
  "fst (handle428 env u response s) = Some e \<Longrightarrow> \<not> from_selector e"
  by (auto simp: handle428_def json_Unmarshal_origin split: sum.splits if_splits)

lemma sendContent_repair_origin:
  "fst (sendContent_repair env u response s) = Some e \<Longrightarrow> \<not> from_selector e"
  by (auto simp: sendContent_repair_def handle409_origin handle410_origin handle428_origin
      split: if_splits)

lemma dispatchMessages_origin:
  "snd (fst (dispatchMessages env u ts unid ak msgs s)) = Inl e \<Longrightarrow> \<not> from_selector e"
  by (auto simp: dispatchMessages_def Let_def json_Marshal_def case_prod_unfold
      split: sum.splits option.splits if_splits)

lemma sendContent_dispatch_origin:
  "snd (fst (sendContent_dispatch env u ts c s)) = Inl e \<Longrightarrow> \<not> from_selector e"
  by (auto simp: sendContent_dispatch_def case_prod_unfold buildMessagesToSend_origin
      dispatchMessages_origin split: option.splits)

lemma sendContent_origin:
  "snd (fst (sendContent env u ts c n s)) = Some e \<Longrightarrow> \<not> from_selector e"
proof (induction env u ts c n s rule: sendContent.induct)
  case (1 env u ts c n s)
  show ?case
  proof (cases "3 < n")
    case True
    with "1.prems" show ?thesis by (simp add: sendContent_exhausted)
  next
    case False
    obtain flag res s1 where d: "sendContent_dispatch env u ts c s = ((flag, res), s1)"
      by (metis prod.exhaust)
    show ?thesis
    proof (cases res)
      case (Inl x)
      from sendContent_error [OF False d [unfolded Inl]] "1.prems" have "e = x" by simp
      moreover have "\<not> from_selector x"
        by (rule sendContent_dispatch_origin [of env u ts c s]) (simp add: d Inl)
      ultimately show ?thesis by simp
    next
      case (Inr response)
      note d' = d [unfolded Inr]
      show ?thesis
      proof (cases "resp_Status response \<in> set retryableStatuses")
        case notretry: False
        from sendContent_final [OF False d' notretry] "1.prems" show ?thesis
          by (auto split: if_splits)
      next
        case True
        obtain rerr s2 where r: "sendContent_repair env u response s1 = (rerr, s2)"
          by (metis prod.exhaust)
        show ?thesis
        proof (cases rerr)
          case (Some x)
          from sendContent_repair_failed [OF False d' True r [unfolded Some]] "1.prems"
          have "e = x" by simp
          moreover have "\<not> from_selector x"
            by (rule sendContent_repair_origin [of env u response s1]) (simp add: r Some)
          ultimately show ?thesis by simp
        next
          case None
          from sendContent_retry [OF False d' True r [unfolded None]] "1.prems"
          have "snd (fst (sendContent env u ts c (n + 1) s2)) = Some e" by simp
          with "1.IH" [OF False d [symmetric] refl Inr True r [symmetric] None]
          show ?thesis .
        qed
      qed
    qed
  qed
qed

section \<open>The choice between sealed and authenticated sending\<close>

lemma sendContent_after_dispatch:
  assumes "\<not> 3 < n"
  shows "\<exists>ext. st_calls (snd (sendContent env u ts c n s)) =
                 st_calls (snd (sendContent_dispatch env u ts c s)) @ ext"
proof -
  obtain flag res s1 where d: "sendContent_dispatch env u ts c s = ((flag, res), s1)"
    by (metis prod.exhaust)
  show ?thesis
  proof (cases res)
    case (Inl e)
    from sendContent_error [OF assms d [unfolded Inl]] d show ?thesis by simp
  next
    case (Inr response)
    note d' = d [unfolded Inr]
    show ?thesis
    proof (cases "resp_Status response \<in> set retryableStatuses")
      case False
      from sendContent_final [OF assms d' False] d show ?thesis by simp
    next
      case True
      obtain rerr s2 where r: "sendContent_repair env u response s1 = (rerr, s2)"
        by (metis prod.exhaust)
      from sendContent_repair_ext [of env u response s1 ts] r
      obtain ext2 where ext2: "st_calls s2 = st_calls s1 @ ext2" by auto
      show ?thesis
      proof (cases rerr)
        case (Some e)
        from sendContent_repair_failed [OF assms d' True r [unfolded Some]] ext2 d
        show ?thesis by simp
      next
        case None
        from sendContent_ext [of env u ts c "n + 1" s2]
        obtain ext3 where "st_calls (snd (sendContent env u ts c (n + 1) s2)) = st_calls s2 @ ext3"
          by blast
        with sendContent_retry [OF assms d' True r [unfolded None]] ext2 d
        show ?thesis by simp
      qed
    qed
  qed
qed

lemma sealedSenderSelector_downgrade:
  assumes "ProfileKeyForSignalID env u s = ((profileKey, perr), s1)"
    and "perr \<noteq> None \<or> profileKey = None \<or> snd (env_DeriveAccessKey env profileKey) \<noteq> None"
  shows "sealedSenderSelector env u s = ((False, fst (env_DeriveAccessKey env profileKey)), s1)"
  using assms by (auto simp: sealedSenderSelector_def Let_def case_prod_unfold)

lemma dispatchMessages_authed:
  "\<exists>request. req_Headers request = [] \<and>
     fst (fst (dispatchMessages env u ts False ak msgs s)) = False \<and>
     st_calls (snd (dispatchMessages env u ts False ak msgs s)) =
       st_calls s @ [SendRequestCall AuthedWS request]"
  by (simp add: dispatchMessages_def Let_def json_Marshal_def CreateWSRequest_def
      case_prod_unfold split: sum.splits)

text \<open>
  Claim C3.  When the profile key lookup fails or returns no key, or the access key
  derivation fails, the selection yields \<open>useUnidentifiedSender = false\<close> and no error.
  The envelopes are then built for authenticated sending; if that succeeds the request
  goes out on the authenticated socket without an access-key header and the attempt
  reports \<open>sentUnidentified = false\<close>; if it fails, the error of the envelope
  construction is what \<open>sendContent\<close> returns.  No error that \<open>sendContent\<close>
  returns, on this or any later attempt, stems from the lookup or the derivation.
\<close>

theorem sealed_sender_downgrade:
  assumes depth: "retryCount \<le> 3"
    and lookup: "ProfileKeyForSignalID env recipientUuid s = ((profileKey, perr), s1)"
    and failed: "perr \<noteq> None \<or> profileKey = None \<or>
                 snd (env_DeriveAccessKey env profileKey) \<noteq> None"
    and build: "buildMessagesToSend env recipientUuid content False s1 = ((messages, berr), s2)"
  shows "fst (fst (sealedSenderSelector env recipientUuid s)) = False \<and>
         (\<forall>e. berr = Some e \<longrightarrow>
            sendContent env recipientUuid messageTimestamp content retryCount s =
              ((False, Some e), s2)) \<and>
         (berr = None \<longrightarrow>
            fst (fst (sendContent_dispatch env recipientUuid messageTimestamp content s)) = False \<and>
            (\<exists>request rest. req_Headers request = [] \<and>
               st_calls (snd (sendContent env recipientUuid messageTimestamp content retryCount s)) =
                 st_calls s2 @ SendRequestCall AuthedWS request # rest)) \<and>
         (\<forall>e. snd (fst (sendContent env recipientUuid messageTimestamp content retryCount s)) = Some e
            \<longrightarrow> \<not> from_selector e)"
proof -
  from depth have n: "\<not> 3 < retryCount" by simp
  note sel = sealedSenderSelector_downgrade [OF lookup failed]
  have flag: "fst (fst (sealedSenderSelector env recipientUuid s)) = False"
    by (simp add: sel)
  have err: "sendContent env recipientUuid messageTimestamp content retryCount s =
               ((False, Some e), s2)" if "berr = Some e" for e
  proof -
    from that have "sendContent_dispatch env recipientUuid messageTimestamp content s =
                      ((False, Inl e), s2)"
      by (simp add: sendContent_dispatch_def sel build)
    from sendContent_error [OF n this] show ?thesis .
  qed
  have sent: "fst (fst (sendContent_dispatch env recipientUuid messageTimestamp content s)) = False \<and>
            (\<exists>request rest. req_Headers request = [] \<and>
               st_calls (snd (sendContent env recipientUuid messageTimestamp content retryCount s)) =
                 st_calls s2 @ SendRequestCall AuthedWS request # rest)" if "berr = None"
  proof -
    let ?ak = "fst (env_DeriveAccessKey env profileKey)"
    from that have d: "sendContent_dispatch env recipientUuid messageTimestamp content s =
                      dispatchMessages env recipientUuid messageTimestamp False ?ak messages s2"
      by (simp add: sendContent_dispatch_def sel build)
    from dispatchMessages_authed [of env recipientUuid messageTimestamp ?ak messages s2]
    obtain request where h: "req_Headers request = []"
      and f: "fst (fst (dispatchMessages env recipientUuid messageTimestamp False ?ak messages s2)) = False"
      and c: "st_calls (snd (dispatchMessages env recipientUuid messageTimestamp False ?ak messages s2)) =
                st_calls s2 @ [SendRequestCall AuthedWS request]"
      by blast
    from sendContent_after_dispatch [OF n, of env recipientUuid messageTimestamp content s]
    obtain rest where
      "st_calls (snd (sendContent env recipientUuid messageTimestamp content retryCount s)) =
         st_calls (snd (sendContent_dispatch env recipientUuid messageTimestamp content s)) @ rest"
      by blast
    then have "st_calls (snd (sendContent env recipientUuid messageTimestamp content retryCount s)) =
                 st_calls s2 @ SendRequestCall AuthedWS request # rest"
      by (simp add: d c)
    with h f d show ?thesis by auto
  qed
  have origin: "\<not> from_selector e"
    if "snd (fst (sendContent env recipientUuid messageTimestamp content retryCount s)) = Some e" for e
    using that by (rule sendContent_origin)
  show ?thesis
    using flag err sent origin by blast
qed

text \<open>The recipient's profile key is unknown and the server answers 200: the send
  succeeds, unsealed, with one request on the authenticated socket.\<close>

theorem sealed_sender_downgrade_witness:
  "fst (fst (sealedSenderSelector (demo_env None 3) ''bob'' (demo_state []))) = False \<and>
   fst (sendContent (demo_env None 3) ''bob'' 1700000000000 demo_content 0 (demo_state [])) =
     (False, None) \<and>
   (\<exists>request rest. req_Headers request = [] \<and>
      st_calls (snd (sendContent (demo_env None 3) ''bob'' 1700000000000 demo_content 0
                  (demo_state []))) =
        st_calls (demo_state []) @ SendRequestCall AuthedWS request # rest)"
proof -
  let ?env = "demo_env None 3"
  let ?msgs = "[\<lparr>msg_Type = 3, msg_DestinationDeviceID = 2, msg_DestinationRegistrationID = 77,
                 msg_Content = ''MwE=''\<rparr>]"
  have depth: "(0 :: int) \<le> 3" by simp
  have lookup: "ProfileKeyForSignalID ?env ''bob'' (demo_state []) =
                  ((None, Some ''profile key not found''), demo_state [])"
    by (simp add: ProfileKeyForSignalID_def demo_env_def demo_state_def)
  have failed: "Some ''profile key not found'' \<noteq> None \<or> (None :: profileKey option) = None \<or>
                 snd (env_DeriveAccessKey ?env None) \<noteq> None"
    by simp
  have build: "buildMessagesToSend ?env ''bob'' demo_content False (demo_state []) =
                 ((?msgs, None), demo_state [])"
    by code_simp
  note t = sealed_sender_downgrade [OF depth lookup failed build,
      where messageTimestamp = 1700000000000]
  from t have a: "fst (fst (sealedSenderSelector ?env ''bob'' (demo_state []))) = False"
    by (rule conjunct1)
  from t have c: "\<exists>request rest. req_Headers request = [] \<and>
      st_calls (snd (sendContent ?env ''bob'' 1700000000000 demo_content 0 (demo_state []))) =
        st_calls (demo_state []) @ SendRequestCall AuthedWS request # rest"
    by simp
  have b: "fst (sendContent ?env ''bob'' 1700000000000 demo_content 0 (demo_state [])) =
             (False, None)"
    by code_simp
  show ?thesis by (intro conjI a b c)
qed

section \<open>Cipher failures during envelope construction\<close>

text \<open>
  The error that \<open>buildAuthedMessageToSend\<close> or \<open>buildSSMessageToSend\<close> returns
  never leaves the loop of \<open>buildMessagesToSend\<close>: when the registration id of the
  session can be read, the envelope is assembled from the zero envelope type and the nil
  payload that came with the error.
\<close>

lemma buildOneMessage_drops_cipher_error:
  assumes "addPadding 3 m = Inr padded"
    and "i < length rs"
    and "(if unauth then buildSSMessageToSend env a padded s
          else buildAuthedMessageToSend env a padded s) = ((t, payload, Some e), s1)"
    and "\<not> is_panic (Some e)"
    and "rec_RemoteRegistrationID (rs ! i) = Inr reg"
  shows "buildOneMessage env unauth a d rs i m s =
           (Inr \<lparr>msg_Type = t, msg_DestinationDeviceID = int d,
                 msg_DestinationRegistrationID = int reg,
                 msg_Content = env_Base64Encode env payload\<rparr>, s1)"
  using assms by (simp add: buildOneMessage_def Let_def)

text \<open>
  Claim C4 (fails on the code).  The cipher reports message type 7, which is neither the
  prekey type 3 nor the ratchet type 2.  \<open>buildAuthedMessageToSend\<close> returns the
  "unknown message type" error, yet \<open>buildMessagesToSend\<close> returns no error and one
  envelope of type 0 with empty content, and \<open>sendContent\<close> submits it and reports
  success.
\<close>

theorem unknown_ciphertext_kind_not_fatal:
  "snd (snd (fst (buildAuthedMessageToSend (demo_env None 7) (demo_address ''bob'' 2) []
                    (demo_state [])))) = Some (UnknownMessageType 7) \<and>
   fst (buildMessagesToSend (demo_env None 7) ''bob'' demo_content False (demo_state [])) =
     ([\<lparr>msg_Type = 0, msg_DestinationDeviceID = 2, msg_DestinationRegistrationID = 77,
        msg_Content = []\<rparr>], None) \<and>
   fst (sendContent (demo_env None 7) ''bob'' 1700000000000 demo_content 0 (demo_state [])) =
     (False, None) \<and>
   sends (st_calls (snd (sendContent (demo_env None 7) ''bob'' 1700000000000 demo_content 0
                           (demo_state [])))) = 1"
proof -
  have a: "snd (snd (fst (buildAuthedMessageToSend (demo_env None 7) (demo_address ''bob'' 2) []
                    (demo_state [])))) = Some (UnknownMessageType 7)"
    by code_simp
  have b: "fst (buildMessagesToSend (demo_env None 7) ''bob'' demo_content False (demo_state [])) =
     ([\<lparr>msg_Type = 0, msg_DestinationDeviceID = 2, msg_DestinationRegistrationID = 77,
        msg_Content = []\<rparr>], None)"
    by code_simp
  have c: "fst (sendContent (demo_env None 7) ''bob'' 1700000000000 demo_content 0 (demo_state [])) =
     (False, None)"
    by code_simp
  have d: "sends (st_calls (snd (sendContent (demo_env None 7) ''bob'' 1700000000000 demo_content 0
                           (demo_state [])))) = 1"
    by code_simp
  show ?thesis by (intro conjI a b c d)
qed

section \<open>Repairs of the session store\<close>

lemma float64_to_int_in_range:
  "- (2 ^ 63) \<le> x \<Longrightarrow> x < 2 ^ 63 \<Longrightarrow> float64_to_int x = x"
  by (simp add: float64_to_int_def)

lemma float64_to_uint_in_range:
  "0 \<le> x \<Longrightarrow> x < 2 ^ 64 \<Longrightarrow> float64_to_uint x = nat x"
  by (simp add: float64_to_uint_def)

lemma fetchMissingDevices_numbers:
  "fetchMissingDevices env u (map JNumber ms) s = (r, s') \<Longrightarrow>
     r = None \<and>
     st_calls s' = st_calls s @ map (\<lambda>m. FetchPreKeyCall u (float64_to_int m)) ms"
proof (induction ms arbitrary: s)
  case Nil
  then show ?case by simp
next
  case (Cons m ms)
  from Cons.prems
  have "fetchMissingDevices env u (map JNumber ms)
          (FetchAndProcessPreKey env u (float64_to_int m) s) = (r, s')"
    by (simp add: assert_float64_def)
  from Cons.IH [OF this] show ?case by simp
qed

lemma removeExtraDevices_numbers:
  "removeExtraDevices env u (map JNumber es) s = (None, s') \<Longrightarrow>
     st_calls s' = st_calls s @
       map (\<lambda>d. RemoveSessionCall (address_of env u (float64_to_uint d))) es \<and>
     (\<forall>d \<in> set es. address_of env u (float64_to_uint d) \<noteq> None)"
proof (induction es arbitrary: s)
  case Nil
  then show ?case by simp
next
  case (Cons d es)
  show ?case
  proof (cases "env_NewAddress env u (float64_to_uint d)")
    case (Inl e)
    with Cons.prems show ?thesis by (simp add: assert_float64_def)
  next
    case (Inr a)
    then have a: "address_of env u (float64_to_uint d) = Some a" by (simp add: address_of_def)
    obtain rr s1 where rm: "RemoveSession env (Some a) s = (rr, s1)" by (metis prod.exhaust)
    from rm have c1: "st_calls s1 = st_calls s @ [RemoveSessionCall (Some a)]"
      using RemoveSession_calls [of env "Some a" s] by simp
    show ?thesis
    proof (cases rr)
      case (Some e)
      with Cons.prems Inr rm show ?thesis by (simp add: assert_float64_def)
    next
      case None
      with Cons.prems Inr rm have "removeExtraDevices env u (map JNumber es) s1 = (None, s')"
        by (simp add: assert_float64_def)
      from Cons.IH [OF this] c1 a show ?thesis by simp
    qed
  qed
qed

lemma refreshStaleDevices_numbers:
  "refreshStaleDevices env u (map JNumber ds) s = (None, s') \<Longrightarrow>
     st_calls s' = st_calls s @
       concat (map (\<lambda>d. [RemoveSessionCall (address_of env u (float64_to_uint d)),
                            FetchPreKeyCall u (float64_to_int d)]) ds)"
proof (induction ds arbitrary: s)
  case Nil
  then show ?case by simp
next
  case (Cons d ds)
  let ?a = "address_of env u (float64_to_uint d)"
  obtain rr s1 where rm: "RemoveSession env ?a s = (rr, s1)" by (metis prod.exhaust)
  from rm have c1: "st_calls s1 = st_calls s @ [RemoveSessionCall ?a]"
    using RemoveSession_calls [of env ?a s] by simp
  show ?case
  proof (cases rr)
    case (Some e)
    with Cons.prems rm show ?thesis
      by (simp add: assert_float64_def address_of_def Let_def)
  next
    case None
    with Cons.prems rm
    have "refreshStaleDevices env u (map JNumber ds)
            (FetchAndProcessPreKey env u (float64_to_int d) s1) = (None, s')"
      by (simp add: assert_float64_def address_of_def Let_def)
    from Cons.IH [OF this] c1 show ?thesis by simp
  qed
qed

lemma handle409_listed:
  assumes body: "resp_Body response = Some (JObject body)"
    and missing: "lists_devices body ''missingDevices'' ms"
    and extra: "lists_devices body ''extraDevices'' es"
    and run: "handle409 env u response s = (None, s')"
  shows "st_calls s' = st_calls s @ map (\<lambda>m. FetchPreKeyCall u (float64_to_int m)) ms @
           map (\<lambda>d. RemoveSessionCall (address_of env u (float64_to_uint d))) es \<and>
         (\<forall>d \<in> set es. address_of env u (float64_to_uint d) \<noteq> None)"
proof -
  have um: "json_Unmarshal (resp_Body response) = Inr body"
    by (simp add: body json_Unmarshal_def)
  define s1 where "s1 = snd (fetchMissingDevices env u (map JNumber ms) s)"
  have fm: "fetchMissingDevices env u (map JNumber ms) s = (None, s1)"
    using fetchMissingDevices_numbers [of env u ms s] unfolding s1_def
    by (metis prod.collapse)
  have c1: "st_calls s1 = st_calls s @ map (\<lambda>m. FetchPreKeyCall u (float64_to_int m)) ms"
    using fetchMissingDevices_numbers [OF fm] by simp
  have first: "(case body_field body ''missingDevices'' of
                   None \<Rightarrow> (None, s)
                 | Some v \<Rightarrow>
                     (case assert_array v of
                        None \<Rightarrow> (Some (RuntimePanic ''interface conversion''), s)
                      | Some missingDevices \<Rightarrow>
                          fetchMissingDevices env u missingDevices s)) = (None, s1)"
  proof (cases "body_field body ''missingDevices''")
    case None
    with missing have "ms = []" by (simp add: lists_devices_def)
    with fm None show ?thesis by simp
  next
    case (Some v)
    with missing have "v = JArray (map JNumber ms)" by (simp add: lists_devices_def)
    with fm Some show ?thesis by (simp add: assert_array_def)
  qed
  have second: "(case body_field body ''extraDevices'' of
                  None \<Rightarrow> (None, s1)
                | Some v \<Rightarrow>
                    (case assert_array v of
                       None \<Rightarrow> (Some (RuntimePanic ''interface conversion''), s1)
                     | Some extraDevices \<Rightarrow>
                         removeExtraDevices env u extraDevices s1)) = (None, s')"
    using run by (simp add: handle409_def um first)
  show ?thesis
  proof (cases "body_field body ''extraDevices''")
    case None
    with extra have "es = []" by (simp add: lists_devices_def)
    with second None c1 show ?thesis by simp
  next
    case (Some v)
    with extra have "v = JArray (map JNumber es)" by (simp add: lists_devices_def)
    with second Some have "removeExtraDevices env u (map JNumber es) s1 = (None, s')"
      by (simp add: assert_array_def)
    from removeExtraDevices_numbers [OF this] c1 show ?thesis by simp
  qed
qed

lemma handle410_listed:
  assumes body: "resp_Body response = Some (JObject body)"
    and stale: "lists_devices body ''staleDevices'' ds"
    and run: "handle410 env u response s = (None, s')"
  shows "st_calls s' = st_calls s @
           concat (map (\<lambda>d. [RemoveSessionCall (address_of env u (float64_to_uint d)),
                                FetchPreKeyCall u (float64_to_int d)]) ds)"
proof -
  have um: "json_Unmarshal (resp_Body response) = Inr body"
    by (simp add: body json_Unmarshal_def)
  show ?thesis
  proof (cases "body_field body ''staleDevices''")
    case None
    with stale have "ds = []" by (simp add: lists_devices_def)
    with run None um show ?thesis by (simp add: handle410_def)
  next
    case (Some v)
    with stale have "v = JArray (map JNumber ds)" by (simp add: lists_devices_def)
    with run Some um have "refreshStaleDevices env u (map JNumber ds) s = (None, s')"
      by (simp add: handle410_def assert_array_def)
    from refreshStaleDevices_numbers [OF this] show ?thesis .
  qed
qed

lemma retryable_409: "(409 :: u32) \<in> set retryableStatuses"
  by (simp add: retryableStatuses_def)

lemma retryable_410: "(410 :: u32) \<in> set retryableStatuses"
  by (simp add: retryableStatuses_def)

text \<open>
  Claim C5.  A send at depth \<open>retryCount\<close> (at most 3) gets a 409 response whose body
  lists the missing devices \<open>ms\<close> and the extra devices \<open>es\<close> (either list may be
  absent).  When \<open>handle409\<close> reports no error, the calls it made are exactly one
  prekey fetch per listed missing device, in order, followed by exactly one session
  removal per listed extra device, in order, each at the address built for that device;
  and \<open>sendContent\<close> then continues as the full send at depth \<open>retryCount + 1\<close>
  from the repaired state.  The device of a fetch is \<open>int(id)\<close> and the device of a
  removal is \<open>uint(id)\<close>, as the source converts the listed number; when the listed
  numbers are device ids that fit both types (from 0 to below \<open>2 ^ 63\<close>), these are the
  listed ids themselves.  When \<open>handle409\<close> reports an error (a removal or an address
  failed) there is no retry: \<open>sendContent\<close> returns that error.
\<close>

theorem handle409_repairs_then_retries:
  assumes depth: "retryCount \<le> 3"
    and dispatch: "sendContent_dispatch env recipientUuid messageTimestamp content s =
                     ((flag, Inr response), s1)"
    and status: "resp_Status response = 409"
    and body: "resp_Body response = Some (JObject body)"
    and missing: "lists_devices body ''missingDevices'' ms"
    and extra: "lists_devices body ''extraDevices'' es"
    and repair: "handle409 env recipientUuid response s1 = (rerr, s2)"
  shows "(rerr = None \<longrightarrow>
            st_calls s2 = st_calls s1 @
              map (\<lambda>m. FetchPreKeyCall recipientUuid (float64_to_int m)) ms @
              map (\<lambda>d. RemoveSessionCall (address_of env recipientUuid (float64_to_uint d))) es \<and>
            (\<forall>d \<in> set es. address_of env recipientUuid (float64_to_uint d) \<noteq> None) \<and>
            ((\<forall>m \<in> set ms. 0 \<le> m \<and> m < 2 ^ 63) \<and> (\<forall>d \<in> set es. 0 \<le> d \<and> d < 2 ^ 63) \<longrightarrow>
               st_calls s2 = st_calls s1 @ map (FetchPreKeyCall recipientUuid) ms @
                 map (\<lambda>d. RemoveSessionCall (address_of env recipientUuid (nat d))) es) \<and>
            sendContent env recipientUuid messageTimestamp content retryCount s =
              sendContent env recipientUuid messageTimestamp content (retryCount + 1) s2) \<and>
         (\<forall>e. rerr = Some e \<longrightarrow>
            sendContent env recipientUuid messageTimestamp content retryCount s =
              ((False, Some e), s2))"
proof -
  from depth have n: "\<not> 3 < retryCount" by simp
  from status have retry: "resp_Status response \<in> set retryableStatuses"
    by (simp add: retryable_409)
  from status repair have r: "sendContent_repair env recipientUuid response s1 = (rerr, s2)"
    by (simp add: sendContent_repair_def)
  have ok: "st_calls s2 = st_calls s1 @
              map (\<lambda>m. FetchPreKeyCall recipientUuid (float64_to_int m)) ms @
              map (\<lambda>d. RemoveSessionCall (address_of env recipientUuid (float64_to_uint d))) es \<and>
            (\<forall>d \<in> set es. address_of env recipientUuid (float64_to_uint d) \<noteq> None) \<and>
            ((\<forall>m \<in> set ms. 0 \<le> m \<and> m < 2 ^ 63) \<and> (\<forall>d \<in> set es. 0 \<le> d \<and> d < 2 ^ 63) \<longrightarrow>
               st_calls s2 = st_calls s1 @ map (FetchPreKeyCall recipientUuid) ms @
                 map (\<lambda>d. RemoveSessionCall (address_of env recipientUuid (nat d))) es) \<and>
            sendContent env recipientUuid messageTimestamp content retryCount s =
              sendContent env recipientUuid messageTimestamp content (retryCount + 1) s2"
    if "rerr = None"
  proof -
    from repair that have run: "handle409 env recipientUuid response s1 = (None, s2)" by simp
    from r that have r': "sendContent_repair env recipientUuid response s1 = (None, s2)" by simp
    note calls = handle409_listed [OF body missing extra run]
    have ranged: "st_calls s2 = st_calls s1 @ map (FetchPreKeyCall recipientUuid) ms @
                 map (\<lambda>d. RemoveSessionCall (address_of env recipientUuid (nat d))) es"
      if rng: "(\<forall>m \<in> set ms. 0 \<le> m \<and> m < 2 ^ 63) \<and> (\<forall>d \<in> set es. 0 \<le> d \<and> d < 2 ^ 63)"
    proof -
      have "map (\<lambda>m. FetchPreKeyCall recipientUuid (float64_to_int m)) ms =
              map (FetchPreKeyCall recipientUuid) ms"
        using rng by (intro map_cong refl) (auto simp: float64_to_int_def)
      moreover have "map (\<lambda>d. RemoveSessionCall (address_of env recipientUuid (float64_to_uint d))) es =
              map (\<lambda>d. RemoveSessionCall (address_of env recipientUuid (nat d))) es"
        using rng by (intro map_cong refl) (auto simp: float64_to_uint_def)
      ultimately show ?thesis using calls by simp
    qed
    from calls ranged sendContent_retry [OF n dispatch retry r']
    show ?thesis by blast
  qed
  have ko: "sendContent env recipientUuid messageTimestamp content retryCount s =
              ((False, Some e), s2)" if "rerr = Some e" for e
  proof -
    from r that have "sendContent_repair env recipientUuid response s1 = (Some e, s2)" by simp
    from sendContent_repair_failed [OF n dispatch retry this] show ?thesis .
  qed
  from ok ko show ?thesis by blast
qed

text \<open>The example of the specification: the body \<open>{"missingDevices":[2],"extraDevices":[5]}\<close>
  gives one prekey fetch for device 2, then one session removal for device 5, then the
  retry at depth 1.\<close>

theorem handle409_repairs_then_retries_witness:
  "st_calls (snd (handle409 (demo_env None 3) ''bob'' demo_409
       (snd (sendContent_dispatch (demo_env None 3) ''bob'' 1700000000000 demo_content
               (demo_state [demo_409]))))) =
     st_calls (snd (sendContent_dispatch (demo_env None 3) ''bob'' 1700000000000 demo_content
               (demo_state [demo_409]))) @
     [FetchPreKeyCall ''bob'' 2, RemoveSessionCall (Some (demo_address ''bob'' 5))] \<and>
   sendContent (demo_env None 3) ''bob'' 1700000000000 demo_content 0 (demo_state [demo_409]) =
     sendContent (demo_env None 3) ''bob'' 1700000000000 demo_content 1
       (snd (handle409 (demo_env None 3) ''bob'' demo_409
          (snd (sendContent_dispatch (demo_env None 3) ''bob'' 1700000000000 demo_content
                  (demo_state [demo_409])))))"
proof -
  let ?env = "demo_env None 3"
  let ?d = "sendContent_dispatch ?env ''bob'' 1700000000000 demo_content (demo_state [demo_409])"
  let ?h = "handle409 ?env ''bob'' demo_409 (snd ?d)"
  let ?body = "[(''missingDevices'', JArray [JNumber 2]), (''extraDevices'', JArray [JNumber 5])]"
  have depth: "(0 :: int) \<le> 3" by simp
  have "fst ?d = (False, Inr demo_409)" by code_simp
  then have dispatch: "?d = ((False, Inr demo_409), snd ?d)" by (simp add: prod_eq_iff)
  have status: "resp_Status demo_409 = 409" by (simp add: demo_409_def response_of_def)
  have body: "resp_Body demo_409 = Some (JObject ?body)" by (simp add: demo_409_def response_of_def)
  have missing: "lists_devices ?body ''missingDevices'' [2]"
    by (simp add: lists_devices_def body_field_def)
  have extra: "lists_devices ?body ''extraDevices'' [5]"
    by (simp add: lists_devices_def body_field_def)
  have "fst ?h = None" by code_simp
  then have repair: "?h = (None, snd ?h)" by (simp add: prod_eq_iff)
  have addr: "address_of ?env ''bob'' (nat 5) = Some (demo_address ''bob'' 5)"
    by (simp add: address_of_def demo_env_def)
  have rng: "(\<forall>m \<in> set [2 :: int]. 0 \<le> m \<and> m < 2 ^ 63) \<and> (\<forall>d \<in> set [5 :: int]. 0 \<le> d \<and> d < 2 ^ 63)"
    by simp
  note t = handle409_repairs_then_retries [OF depth dispatch status body missing extra repair,
      THEN conjunct1, THEN mp, OF refl]
  from t rng have calls: "st_calls (snd ?h) = st_calls (snd ?d) @
      map (FetchPreKeyCall ''bob'') [2] @
      map (\<lambda>d. RemoveSessionCall (address_of ?env ''bob'' (nat d))) [5]"
    by blast
  from t have retry: "sendContent ?env ''bob'' 1700000000000 demo_content 0 (demo_state [demo_409]) =
     sendContent ?env ''bob'' 1700000000000 demo_content (0 + 1) (snd ?h)"
    by blast
  from calls addr retry show ?thesis by simp
qed

text \<open>
  Claim C6 (fails on the code).  \<open>handle410\<close> overwrites the error of \<open>NewAddress\<close>
  with the result of \<open>RemoveSession\<close>, where \<open>handle409\<close> returns it.  The response is
  the 410 of the specification's example, \<open>{"staleDevices":[3]}\<close>, and \<open>NewAddress\<close>
  fails.  \<open>handle410\<close> calls \<open>RemoveSession\<close> with the nil address, fetches the prekey
  bundle of device 3 and reports no error, and \<open>sendContent\<close> retries and succeeds: the
  session record of device 3 was not removed.  On the same failure \<open>handle409\<close> returns
  the error of \<open>NewAddress\<close>.
\<close>

theorem handle410_ignores_address_error:
  "fst (handle410 demo_env_no_address ''bob'' demo_410
          (snd (sendContent_dispatch demo_env_no_address ''bob'' 1700000000000 demo_content
                  (demo_state [demo_410])))) = None \<and>
   st_calls (snd (handle410 demo_env_no_address ''bob'' demo_410
          (snd (sendContent_dispatch demo_env_no_address ''bob'' 1700000000000 demo_content
                  (demo_state [demo_410]))))) =
     st_calls (snd (sendContent_dispatch demo_env_no_address ''bob'' 1700000000000 demo_content
                  (demo_state [demo_410]))) @
     [RemoveSessionCall None, FetchPreKeyCall ''bob'' 3] \<and>
   fst (sendContent demo_env_no_address ''bob'' 1700000000000 demo_content 0
          (demo_state [demo_410])) = (False, None) \<and>
   fst (handle409 demo_env_no_address ''bob'' demo_409
          (snd (sendContent_dispatch demo_env_no_address ''bob'' 1700000000000 demo_content
                  (demo_state [demo_409])))) = Some (External FromAddress ''invalid address'')"
proof -
  let ?d = "sendContent_dispatch demo_env_no_address ''bob'' 1700000000000 demo_content
              (demo_state [demo_410])"
  have a: "fst (handle410 demo_env_no_address ''bob'' demo_410 (snd ?d)) = None"
    by code_simp
  have b: "st_calls (snd (handle410 demo_env_no_address ''bob'' demo_410 (snd ?d))) =
             st_calls (snd ?d) @ [RemoveSessionCall None, FetchPreKeyCall ''bob'' 3]"
    by code_simp
  have c: "fst (sendContent demo_env_no_address ''bob'' 1700000000000 demo_content 0
                  (demo_state [demo_410])) = (False, None)"
    by code_simp
  have d: "fst (handle409 demo_env_no_address ''bob'' demo_409
          (snd (sendContent_dispatch demo_env_no_address ''bob'' 1700000000000 demo_content
                  (demo_state [demo_409])))) = Some (External FromAddress ''invalid address'')"
    by code_simp
  show ?thesis by (intro conjI a b c d)
qed

section \<open>One envelope per device\<close>














section \<open>The sync message to the sender's own account\<close>

text \<open>
  Claim C8.  For a 1:1 send whose primary \<open>sendContent\<close> returned no error, whatever
  error the later sync send to the sender's own account returns (short of a panic, which
  nothing below \<open>SendMessage\<close> recovers from), \<open>SendMessage\<close> returns the successful
  result for the recipient.  For a group send, whatever error the sync send returns,
  \<open>SendGroupMessage\<close> returns no error and exactly the result that the loop over the
  members built, with every success the loop recorded.
\<close>

theorem self_sync_failure_swallowed:
  fixes env :: "'w env"
  defines "ts0 \<equiv> currentMessageTimestamp env"
  defines "dm0 \<equiv> (\<lambda>message s. dataMessageFromText message (ts0 s))"
  defines "gm0 \<equiv> (\<lambda>groupV2 message s. (dm0 message s)
                      \<lparr>dm_GroupV2 := Some (env_groupMetadataForDataMessage env groupV2)\<rparr>)"
  shows
  "(sendContent env recipientUuid (ts0 s)
       \<lparr>c_DataMessage = Some (dm0 message s), c_SyncMessage = None\<rparr> 0 s =
      ((sentUnidentified, None), s1) \<and>
    howManyOtherDevicesDoWeHave env (FetchAndProcessPreKey env (env_AciUuid env) (- 1) s1) =
      (otherDevices, s2) \<and>
    sendContent env (env_AciUuid env) (ts0 s)
       (syncMessageFromSoloDataMessage (dm0 message s)
          \<lparr>ok_RecipientUuid = recipientUuid, ok_Unidentified = sentUnidentified\<rparr>) 0 s2 =
      ((selfFlag, selfSendErr), s3) \<and>
    (0 < otherDevices \<longrightarrow> \<not> is_panic selfSendErr)
    \<longrightarrow>
    fst (SendMessage env recipientUuid message s) =
      Inr \<lparr>res_WasSuccessful = True,
           res_SuccessfulSendResult =
             Some \<lparr>ok_RecipientUuid = recipientUuid, ok_Unidentified = sentUnidentified\<rparr>,
           res_FailedSendResult = None\<rparr>) \<and>
   (RetrieveGroupByID env groupID t = (Inr groupV2, t0) \<and>
    sendToMembers env (ts0 t0)
       \<lparr>c_DataMessage = Some (gm0 groupV2 message t0), c_SyncMessage = None\<rparr>
       (group_Members groupV2) \<lparr>grp_SuccessfullySentTo = [], grp_FailedToSendTo = []\<rparr> t0 =
      (Inr result, t1) \<and>
    howManyOtherDevicesDoWeHave env t1 = (others, t2) \<and>
    sendContent env (env_AciUuid env) (ts0 t0)
       (syncMessageFromGroupDataMessage env (gm0 groupV2 message t0)
          (grp_SuccessfullySentTo result))
       0 t2 = ((groupFlag, groupSelfSendErr), t3) \<and>
    (0 < others \<longrightarrow> \<not> is_panic groupSelfSendErr)
    \<longrightarrow>
    fst (SendGroupMessage env groupID message t) = (Some result, None))"
proof (intro conjI impI)
  assume h: "sendContent env recipientUuid (ts0 s)
       \<lparr>c_DataMessage = Some (dm0 message s), c_SyncMessage = None\<rparr> 0 s =
      ((sentUnidentified, None), s1) \<and>
    howManyOtherDevicesDoWeHave env (FetchAndProcessPreKey env (env_AciUuid env) (- 1) s1) =
      (otherDevices, s2) \<and>
    sendContent env (env_AciUuid env) (ts0 s)
       (syncMessageFromSoloDataMessage (dm0 message s)
          \<lparr>ok_RecipientUuid = recipientUuid, ok_Unidentified = sentUnidentified\<rparr>) 0 s2 =
      ((selfFlag, selfSendErr), s3) \<and>
    (0 < otherDevices \<longrightarrow> \<not> is_panic selfSendErr)"
  then show "fst (SendMessage env recipientUuid message s) =
      Inr \<lparr>res_WasSuccessful = True,
           res_SuccessfulSendResult =
             Some \<lparr>ok_RecipientUuid = recipientUuid, ok_Unidentified = sentUnidentified\<rparr>,
           res_FailedSendResult = None\<rparr>"
    unfolding ts0_def dm0_def
    by (auto simp: SendMessage_def Let_def)
next
  assume h: "RetrieveGroupByID env groupID t = (Inr groupV2, t0) \<and>
    sendToMembers env (ts0 t0)
       \<lparr>c_DataMessage = Some (gm0 groupV2 message t0), c_SyncMessage = None\<rparr>
       (group_Members groupV2) \<lparr>grp_SuccessfullySentTo = [], grp_FailedToSendTo = []\<rparr> t0 =
      (Inr result, t1) \<and>
    howManyOtherDevicesDoWeHave env t1 = (others, t2) \<and>
    sendContent env (env_AciUuid env) (ts0 t0)
       (syncMessageFromGroupDataMessage env (gm0 groupV2 message t0)
          (grp_SuccessfullySentTo result))
       0 t2 = ((groupFlag, groupSelfSendErr), t3) \<and>
    (0 < others \<longrightarrow> \<not> is_panic groupSelfSendErr)"
  then show "fst (SendGroupMessage env groupID message t) = (Some result, None)"
    unfolding ts0_def dm0_def gm0_def
    by (auto simp: SendGroupMessage_def Let_def)
qed


text \<open>The server answers 200 to the message for bob and 400 to the sync message for
  alice's other device: the sync send fails with "unexpected status 400", and both entry
  points still report the send to bob as successful.\<close>

theorem self_sync_failure_swallowed_witness:
  "fst (SendMessage (demo_env None 3) ''bob'' ''hi''
          (demo_state [response_of 200 None, response_of 400 None])) =
     Inr \<lparr>res_WasSuccessful = True,
          res_SuccessfulSendResult = Some \<lparr>ok_RecipientUuid = ''bob'', ok_Unidentified = False\<rparr>,
          res_FailedSendResult = None\<rparr> \<and>
   sends (st_calls (snd (SendMessage (demo_env None 3) ''bob'' ''hi''
          (demo_state [response_of 200 None, response_of 400 None])))) = 2 \<and>
   fst (SendGroupMessage (demo_env None 3) ''group'' ''hi''
          (demo_state [response_of 200 None, response_of 400 None])) =
     (Some \<lparr>grp_SuccessfullySentTo = [\<lparr>ok_RecipientUuid = ''bob'', ok_Unidentified = False\<rparr>],
            grp_FailedToSendTo = []\<rparr>, None)"
proof -
  let ?env = "demo_env None 3"
  let ?s = "demo_state [response_of 200 None, response_of 400 None]"
  let ?ts = "currentMessageTimestamp ?env ?s"
  let ?dm = "dataMessageFromText ''hi'' ?ts"
  let ?c = "\<lparr>c_DataMessage = Some ?dm, c_SyncMessage = None\<rparr>"
  let ?p = "sendContent ?env ''bob'' ?ts ?c 0 ?s"
  let ?h = "howManyOtherDevicesDoWeHave ?env
              (FetchAndProcessPreKey ?env (env_AciUuid ?env) (- 1) (snd ?p))"
  let ?sync = "sendContent ?env (env_AciUuid ?env) ?ts
                 (syncMessageFromSoloDataMessage ?dm
                    \<lparr>ok_RecipientUuid = ''bob'', ok_Unidentified = False\<rparr>) 0 (snd ?h)"
  have "fst ?p = (False, None)" by code_simp
  then have p: "?p = ((False, None), snd ?p)" by (simp add: prod_eq_iff)
  have h: "?h = (fst ?h, snd ?h)" by simp
  have "fst ?sync = (False, Some (UnexpectedStatus 400))" by code_simp
  then have sync: "?sync = ((False, Some (UnexpectedStatus 400)), snd ?sync)"
    by (simp add: prod_eq_iff)
  have np: "0 < fst ?h \<longrightarrow> \<not> is_panic (Some (UnexpectedStatus 400))" by simp
  note h3 = conjI [OF sync np]
  note h2 = conjI [OF h h3]
  note h1 = conjI [OF p h2]
  note solo = self_sync_failure_swallowed [where env = ?env and s = ?s and message = "''hi''"
      and recipientUuid = "''bob''", THEN conjunct1, THEN mp, OF h1]
  have calls: "sends (st_calls (snd (SendMessage ?env ''bob'' ''hi'' ?s))) = 2"
    by code_simp
  have grp: "fst (SendGroupMessage ?env ''group'' ''hi'' ?s) =
     (Some \<lparr>grp_SuccessfullySentTo = [\<lparr>ok_RecipientUuid = ''bob'', ok_Unidentified = False\<rparr>],
            grp_FailedToSendTo = []\<rparr>, None)"
    by code_simp
  show ?thesis by (intro conjI solo calls grp)
qed

end
